theory Spec2Isabelle
  imports Main "HOL-Library.Word"
begin

unbundle bit_operations_syntax

section \<open>The data model of the checker\<close>

text \<open>
  The development embeds \<^verbatim>\<open>src/check.c\<close>, the semantic analysis pass of harec.
  The headers \<^verbatim>\<open>ast.h\<close>, \<^verbatim>\<open>expr.h\<close>, \<^verbatim>\<open>types.h\<close>, \<^verbatim>\<open>scope.h\<close> are not part of the
  sources at hand, so the data types below are read off the way \<^verbatim>\<open>check.c\<close> uses
  them. A C pointer that may be \<^verbatim>\<open>NULL\<close> is an \<open>option\<close>; a \<^verbatim>\<open>next\<close>-linked chain is a list.
\<close>

subsection \<open>Identifiers and source locations\<close>

datatype identifier_t = Identifier (name: string) (ns: "identifier_t option")

record location =
  path :: string
  lineno :: int
  colno :: int

subsection \<open>Errors\<close>

text \<open>
  \<^verbatim>\<open>expect\<close> prints a diagnostic and aborts; \<^verbatim>\<open>assert\<close> aborts; following a null pointer
  ends the process as well. Each is a value of \<open>error\<close>. \<open>Union_misread\<close> marks a read
  of a member of the union inside \<^verbatim>\<open>struct type\<close> other than the one the type holds: what
  the C program sees there depends on the memory layout, which is not modelled.
\<close>

datatype error =
    Error location string
  | Assertion_failure
  | Null_dereference
  | Union_misread

definition and_then :: "error + 'a \<Rightarrow> ('a \<Rightarrow> error + 'b) \<Rightarrow> error + 'b" where
  "and_then m f = (case m of Inl e \<Rightarrow> Inl e | Inr x \<Rightarrow> f x)"

definition expect :: "location \<Rightarrow> bool \<Rightarrow> string \<Rightarrow> error + unit" where
  "expect l constraint fmt = (if constraint then Inr () else Inl (Error l fmt))"

definition c_assert :: "bool \<Rightarrow> error + unit" where
  "c_assert b = (if b then Inr () else Inl Assertion_failure)"

subsection \<open>Types\<close>

datatype type_storage =
    TYPE_STORAGE_BOOL | TYPE_STORAGE_CHAR | TYPE_STORAGE_ENUM
  | TYPE_STORAGE_F32 | TYPE_STORAGE_F64
  | TYPE_STORAGE_I16 | TYPE_STORAGE_I32 | TYPE_STORAGE_I64 | TYPE_STORAGE_I8
  | TYPE_STORAGE_INT | TYPE_STORAGE_NULL | TYPE_STORAGE_RUNE | TYPE_STORAGE_SIZE
  | TYPE_STORAGE_U16 | TYPE_STORAGE_U32 | TYPE_STORAGE_U64 | TYPE_STORAGE_U8
  | TYPE_STORAGE_UINT | TYPE_STORAGE_UINTPTR | TYPE_STORAGE_VOID
  | TYPE_STORAGE_ALIAS | TYPE_STORAGE_ARRAY | TYPE_STORAGE_FUNCTION
  | TYPE_STORAGE_POINTER | TYPE_STORAGE_SLICE | TYPE_STORAGE_STRING
  | TYPE_STORAGE_STRUCT | TYPE_STORAGE_TAGGED_UNION | TYPE_STORAGE_UNION

datatype variadism = VARIADISM_NONE | VARIADISM_C | VARIADISM_HARE

text \<open>
  \<^verbatim>\<open>struct type\<close>: a storage tag, flags, a size and a union of storage-specific
  payloads. Types are interned (hash-consed) by the type store, so two pointers to
  \<^verbatim>\<open>struct type\<close> are equal exactly when the types are structurally equal; the model
  compares types with \<open>=\<close> where the C code compares pointers or \<^verbatim>\<open>id\<close>s.
  Arrays and slices both keep their member type in the \<^verbatim>\<open>array\<close> member of the union.
\<close>

datatype htype = Type (storage: type_storage) (flags: "32 word") (tsize: nat) (info: type_info)
and type_info =
    No_info
  | Alias_info identifier_t htype
  | Array_info nat htype
  | Enum_info "(string \<times> 64 word) list"
  | Func_info htype variadism "htype list"
  | Pointer_info htype "32 word"
  | Struct_info "(string \<times> htype) list"
  | Tagged_info "htype list"

definition TYPE_CONST :: "32 word" where "TYPE_CONST = 1"
definition PTR_NULLABLE :: "32 word" where "PTR_NULLABLE = 1"
definition SIZE_UNDEFINED :: nat where "SIZE_UNDEFINED = 2 ^ 64 - 1"

definition FN_FINI :: "32 word" where "FN_FINI = 1"
definition FN_INIT :: "32 word" where "FN_INIT = 2"
definition FN_TEST :: "32 word" where "FN_TEST = 4"

text \<open>Syntactic types, as the parser hands them to the type store.\<close>

datatype ast_type =
  Ast_type (at_loc: location) (at_storage: type_storage) (at_flags: "32 word") (at_info: ast_type_info)
and ast_type_info =
    AT_none
  | AT_alias identifier_t bool
  | AT_pointer ast_type "32 word"
  | AT_array "nat option" ast_type
  | AT_enum "(string \<times> int option) list"
  | AT_struct_union "(string \<times> ast_type) list"
  | AT_tagged "ast_type list"
  | AT_func ast_function_type
and ast_function_type =
  Ast_function_type (proto_result: ast_type) (proto_variadism: variadism)
    (proto_params: "(location \<times> string option \<times> ast_type) list")

subsection \<open>The untyped tree\<close>

datatype expr_type =
    EXPR_ACCESS | EXPR_ASSERT | EXPR_ASSIGN | EXPR_BINARITHM | EXPR_BINDING
  | EXPR_BREAK | EXPR_CALL | EXPR_CAST | EXPR_CONSTANT | EXPR_CONTINUE
  | EXPR_DEFER | EXPR_FOR | EXPR_IF | EXPR_LIST | EXPR_MATCH | EXPR_MEASURE
  | EXPR_RETURN | EXPR_SLICE | EXPR_STRUCT | EXPR_SWITCH | EXPR_UNARITHM

datatype binarithm_operator =
    BIN_BAND | BIN_BOR | BIN_DIV | BIN_GREATER | BIN_GREATEREQ | BIN_LAND
  | BIN_LEQUAL | BIN_LESS | BIN_LESSEQ | BIN_LOR | BIN_LSHIFT | BIN_LXOR
  | BIN_MINUS | BIN_MODULO | BIN_NEQUAL | BIN_PLUS | BIN_RSHIFT | BIN_TIMES
  | BIN_BXOR

datatype unarithm_operator = UN_ADDRESS | UN_BNOT | UN_DEREF | UN_LNOT | UN_MINUS | UN_PLUS

datatype cast_kind = C_CAST | C_ASSERTION | C_TEST

text \<open>
  \<^verbatim>\<open>struct ast_expression\<close>. Every node starts with its location. Chains whose first
  link is embedded in the node (expression lists, bindings) are a head and a list;
  chains reached through a pointer (arguments, array items, fields, cases) are lists.
  A constant carries its storage class and the member of the \<^verbatim>\<open>constant\<close> union that
  the parser filled in.
\<close>

datatype ast_expression =
    A_access_ident location identifier_t
  | A_access_index location ast_expression ast_expression
  | A_access_field location ast_expression string
  | A_assert location "ast_expression option" "ast_expression option"
  | A_assign location binarithm_operator ast_expression ast_expression bool
  | A_binarithm location binarithm_operator ast_expression ast_expression
  | A_binding location ast_binding "ast_binding list"
  | A_control location expr_type "string option"
  | A_call location ast_expression "ast_call_argument list"
  | A_cast location cast_kind ast_expression ast_type
  | A_constant location type_storage ast_constant
  | A_defer location ast_expression
  | A_for location "string option" location "ast_expression option" ast_expression
      "ast_expression option" ast_expression
  | A_if location ast_expression ast_expression "ast_expression option"
  | A_list location ast_expression "ast_expression list"
  | A_match location
  | A_measure_len location ast_expression
  | A_measure_size location ast_type
  | A_measure_offset location
  | A_return location "ast_expression option"
  | A_slice location ast_expression "ast_expression option" "ast_expression option"
  | A_struct location bool "string option" "ast_field_value list"
  | A_switch location ast_expression "ast_switch_case list"
  | A_unarithm location unarithm_operator ast_expression
and ast_binding =
  Ast_binding (b_name: string) (b_type: "ast_type option") (b_flags: "32 word")
    (b_initializer: ast_expression) (b_is_static: bool)
and ast_call_argument = Ast_call_argument (arg_variadic: bool) (arg_value: ast_expression)
and ast_constant =
    AC_none
  | AC_ival int
  | AC_uval nat
  | AC_rune nat
  | AC_bval bool
  | AC_string string
  | AC_array "ast_array_constant list"
and ast_array_constant = Ast_array_constant (item_value: ast_expression) (item_expand: bool)
and ast_field_value =
  Ast_field_value (f_is_embedded: bool) (f_name: string) (f_type: ast_type)
    (f_initializer: ast_expression)
and ast_switch_case =
  Ast_switch_case (case_options: "ast_expression list") (case_value: ast_expression)


primrec ast_loc :: "ast_expression \<Rightarrow> location" where
  "ast_loc (A_access_ident l _) = l"
| "ast_loc (A_access_index l _ _) = l"
| "ast_loc (A_access_field l _ _) = l"
| "ast_loc (A_assert l _ _) = l"
| "ast_loc (A_assign l _ _ _ _) = l"
| "ast_loc (A_binarithm l _ _ _) = l"
| "ast_loc (A_binding l _ _) = l"
| "ast_loc (A_control l _ _) = l"
| "ast_loc (A_call l _ _) = l"
| "ast_loc (A_cast l _ _ _) = l"
| "ast_loc (A_constant l _ _) = l"
| "ast_loc (A_defer l _) = l"
| "ast_loc (A_for l _ _ _ _ _ _) = l"
| "ast_loc (A_if l _ _ _) = l"
| "ast_loc (A_list l _ _) = l"
| "ast_loc (A_match l) = l"
| "ast_loc (A_measure_len l _) = l"
| "ast_loc (A_measure_size l _) = l"
| "ast_loc (A_measure_offset l) = l"
| "ast_loc (A_return l _) = l"
| "ast_loc (A_slice l _ _ _) = l"
| "ast_loc (A_struct l _ _ _) = l"
| "ast_loc (A_switch l _ _) = l"
| "ast_loc (A_unarithm l _ _) = l"

subsection \<open>The typed tree and scope objects\<close>

datatype object_type = O_BIND | O_CONST | O_DECL | O_TYPE

text \<open>
  \<^verbatim>\<open>struct expression\<close>: the kind, the result type (a pointer: \<open>None\<close> is \<^verbatim>\<open>NULL\<close>), the
  \<^verbatim>\<open>terminates\<close> flag and the union of payloads. Every node is obtained from \<^verbatim>\<open>xcalloc\<close>,
  so a field that a checking function does not assign is zero: a null result, a false
  flag. A scope captured by a \<^verbatim>\<open>for\<close> or list node is kept as the address of the scope.
  The \<^verbatim>\<open>expand\<close> bit of an array constant is only ever set on the first item of the
  chain and is kept beside the items.
\<close>

datatype scope_object =
  Scope_object (otype: object_type) (ident: identifier_t) (oname: identifier_t)
    (obj_type: htype) (obj_value: "expression option")
and expression =
  Expression (etype: expr_type) (result: "htype option") (terminates: bool) (payload: expr_payload)
and expr_payload =
    P_zero
  | P_access_ident scope_object
  | P_access_index expression expression
  | P_access_field expression "string \<times> htype"
  | P_assert "expression option" expression
  | P_assign binarithm_operator expression expression bool
  | P_binarithm binarithm_operator expression expression
  | P_binding "(scope_object \<times> expression) list"
  | P_call expression "expression list"
  | P_cast cast_kind expression "htype option"
  | P_const_ival int
  | P_const_uval nat
  | P_const_rune nat
  | P_const_bval bool
  | P_const_string string nat
  | P_const_array "expression list" bool
  | P_control "string option"
  | P_defer expression
  | P_for "string option" nat "expression option" expression "expression option" expression
  | P_if expression expression "expression option"
  | P_list "expression list" nat
  | P_measure_len expression
  | P_measure_size htype
  | P_return "expression option"
  | P_slice expression "expression option" "expression option"
  | P_struct "((string \<times> htype) \<times> expression) list"
  | P_switch expression "(expression list \<times> expression) list"
  | P_unarithm unarithm_operator expression

text \<open>
  \<^verbatim>\<open>struct scope\<close>. The chain of scopes from the current one to the unit scope is a
  list, innermost first; \<open>addr\<close> stands for the address of the scope, so that two
  scopes are the same object exactly when their addresses agree.
\<close>

record scope =
  addr :: nat
  parent :: "nat option"
  stype :: expr_type
  slabel :: "string option"
  objects :: "scope_object list"

text \<open>
  \<^verbatim>\<open>struct context\<close>. \<open>scopes\<close> is \<^verbatim>\<open>ctx->scope\<close> with its parent chain; \<^verbatim>\<open>ctx->unit\<close> is the
  root of that chain, its last element. \<open>next_scope\<close> is the address the next
  \<^verbatim>\<open>scope_push\<close> allocates.
\<close>

record check_ctx =
  ctx_ns :: "identifier_t option"
  scopes :: "scope list"
  current_fntype :: "htype option"
  deferring :: bool
  static_id :: int
  next_scope :: nat

text \<open>
  The type store, the assignability and castability relations, the classifiers
  and the constant evaluator live in other files; they are parameters of the checker.
  \<open>lookup_atype\<close> either aborts with a diagnostic of its own or yields a type.
\<close>

record type_store =
  lookup_atype :: "scope list \<Rightarrow> ast_type \<Rightarrow> error + htype"
  lookup_pointer :: "htype \<Rightarrow> 32 word \<Rightarrow> htype"
  lookup_slice :: "htype \<Rightarrow> htype"
  lookup_array :: "htype \<Rightarrow> nat \<Rightarrow> htype"
  is_assignable :: "htype \<Rightarrow> htype \<Rightarrow> bool"
  is_castable :: "htype \<Rightarrow> htype \<Rightarrow> bool"
  is_integer :: "htype \<Rightarrow> bool"
  is_signed :: "htype \<Rightarrow> bool"
  is_numeric :: "htype \<Rightarrow> bool"
  eval_expr :: "expression \<Rightarrow> expression option"

type_synonym checked = "error + (check_ctx \<times> expression)"
type_synonym checker = "check_ctx \<Rightarrow> ast_expression \<Rightarrow> htype option \<Rightarrow> checked"

subsection \<open>Builtin types and the projections of \<^verbatim>\<open>types.c\<close>\<close>

text \<open>
  Modelled from the spec: the builtin type table (\<^verbatim>\<open>builtin_type_for_storage\<close> and the
  singletons \<^verbatim>\<open>builtin_type_void\<close>, \<^verbatim>\<open>builtin_type_bool\<close>, \<^verbatim>\<open>builtin_type_size\<close>,
  \<^verbatim>\<open>builtin_type_str\<close>, \<^verbatim>\<open>builtin_type_const_str\<close>), which the spec calls the canonical
  instance for each primitive storage class. Their definitions are in \<^verbatim>\<open>types.c\<close>.
\<close>

fun builtin_size :: "type_storage \<Rightarrow> nat option" where
  "builtin_size TYPE_STORAGE_BOOL = Some 1"
| "builtin_size TYPE_STORAGE_CHAR = Some 1"
| "builtin_size TYPE_STORAGE_F32 = Some 4"
| "builtin_size TYPE_STORAGE_F64 = Some 8"
| "builtin_size TYPE_STORAGE_I8 = Some 1"
| "builtin_size TYPE_STORAGE_I16 = Some 2"
| "builtin_size TYPE_STORAGE_I32 = Some 4"
| "builtin_size TYPE_STORAGE_I64 = Some 8"
| "builtin_size TYPE_STORAGE_INT = Some 4"
| "builtin_size TYPE_STORAGE_NULL = Some 8"
| "builtin_size TYPE_STORAGE_RUNE = Some 4"
| "builtin_size TYPE_STORAGE_SIZE = Some 8"
| "builtin_size TYPE_STORAGE_U8 = Some 1"
| "builtin_size TYPE_STORAGE_U16 = Some 2"
| "builtin_size TYPE_STORAGE_U32 = Some 4"
| "builtin_size TYPE_STORAGE_U64 = Some 8"
| "builtin_size TYPE_STORAGE_UINT = Some 4"
| "builtin_size TYPE_STORAGE_UINTPTR = Some 8"
| "builtin_size TYPE_STORAGE_VOID = Some 0"
| "builtin_size TYPE_STORAGE_STRING = Some 24"
| "builtin_size _ = None"

definition builtin_type_for_storage :: "type_storage \<Rightarrow> bool \<Rightarrow> htype option" where
  "builtin_type_for_storage s is_const =
     (case builtin_size s of
        None \<Rightarrow> None
      | Some n \<Rightarrow> Some (Type s (if is_const then TYPE_CONST else 0) n No_info))"

definition builtin_type_void :: htype where
  "builtin_type_void = Type TYPE_STORAGE_VOID 0 0 No_info"

definition builtin_type_bool :: htype where
  "builtin_type_bool = Type TYPE_STORAGE_BOOL 0 1 No_info"

definition builtin_type_size :: htype where
  "builtin_type_size = Type TYPE_STORAGE_SIZE 0 8 No_info"

definition builtin_type_str :: htype where
  "builtin_type_str = Type TYPE_STORAGE_STRING 0 24 No_info"

definition builtin_type_const_str :: htype where
  "builtin_type_const_str = Type TYPE_STORAGE_STRING TYPE_CONST 24 No_info"

text \<open>
  Modelled from the spec: \<^verbatim>\<open>type_store_lookup_with_flags\<close> (in \<^verbatim>\<open>type_store.c\<close>), which
  the spec describes as returning a copy of the type with additional flags.
\<close>

definition lookup_with_flags :: "htype \<Rightarrow> 32 word \<Rightarrow> htype" where
  "lookup_with_flags t f = Type (storage t) (flags t OR f) (tsize t) (info t)"

text \<open>
  Modelled from the spec: \<^verbatim>\<open>type_dereference\<close> and \<^verbatim>\<open>type_dealias\<close> (in \<^verbatim>\<open>types.c\<close>).
  The spec: for a non-nullable pointer its referent, for a nullable pointer null,
  else the type itself; \<open>dealias\<close> unwraps aliases.
\<close>

definition type_dereference :: "htype \<Rightarrow> htype option" where
  "type_dereference t =
     (case info t of
        Pointer_info referent pflags \<Rightarrow>
          if pflags AND PTR_NULLABLE \<noteq> 0 then None else Some referent
      | _ \<Rightarrow> Some t)"

fun type_dealias :: "htype \<Rightarrow> htype" where
  "type_dealias (Type s f n (Alias_info i t)) = type_dealias t"
| "type_dealias t = t"

text \<open>
  Modelled from the spec: \<^verbatim>\<open>type_get_field\<close> (in \<^verbatim>\<open>types.c\<close>): the descriptor of the
  named field, or none.
\<close>

definition type_get_field :: "htype \<Rightarrow> string \<Rightarrow> (string \<times> htype) option" where
  "type_get_field t fname =
     (case info t of
        Struct_info fs \<Rightarrow> find (\<lambda>f. fst f = fname) fs
      | _ \<Rightarrow> None)"

text \<open>
  Reads of the storage-specific union of a type. A type without payload has a zeroed
  union, whose \<^verbatim>\<open>array.members\<close> is \<^verbatim>\<open>NULL\<close>.
\<close>

definition res :: "expression \<Rightarrow> error + htype" where
  "res e = (case result e of None \<Rightarrow> Inl Null_dereference | Some t \<Rightarrow> Inr t)"

definition array_members :: "htype \<Rightarrow> error + htype option" where
  "array_members t =
     (case info t of
        Array_info n m \<Rightarrow> Inr (Some m)
      | No_info \<Rightarrow> Inr None
      | _ \<Rightarrow> Inl Union_misread)"

definition array_length :: "htype \<Rightarrow> error + nat" where
  "array_length t =
     (case info t of
        Array_info n m \<Rightarrow> Inr n
      | No_info \<Rightarrow> Inr 0
      | _ \<Rightarrow> Inl Union_misread)"

definition pointer_info :: "htype \<Rightarrow> error + (htype \<times> 32 word)" where
  "pointer_info t =
     (case info t of
        Pointer_info referent pflags \<Rightarrow> Inr (referent, pflags)
      | No_info \<Rightarrow> Inl Null_dereference
      | _ \<Rightarrow> Inl Union_misread)"

definition func_info :: "htype \<Rightarrow> error + (htype \<times> variadism \<times> htype list)" where
  "func_info t =
     (case info t of
        Func_info r v ps \<Rightarrow> Inr (r, v, ps)
      | No_info \<Rightarrow> Inl Null_dereference
      | _ \<Rightarrow> Inl Union_misread)"

definition tagged_members :: "htype \<Rightarrow> error + htype list" where
  "tagged_members t =
     (case info t of
        Tagged_info ms \<Rightarrow> Inr ms
      | No_info \<Rightarrow> Inl Null_dereference
      | _ \<Rightarrow> Inl Union_misread)"

definition enum_values :: "htype \<Rightarrow> error + (string \<times> 64 word) list" where
  "enum_values t =
     (case info t of
        Enum_info vs \<Rightarrow> Inr vs
      | No_info \<Rightarrow> Inr []
      | _ \<Rightarrow> Inl Union_misread)"

subsection \<open>Scopes\<close>

text \<open>
  Modelled from the spec: \<^verbatim>\<open>scope_push\<close>, \<^verbatim>\<open>scope_pop\<close>, \<^verbatim>\<open>scope_insert\<close> and
  \<^verbatim>\<open>scope_lookup\<close> (in \<^verbatim>\<open>scope.c\<close>). The spec: push creates a child scope under the
  current one and makes it current; pop restores the parent; insert adds an object
  to the insertion-ordered list of the scope, without duplicate detection; lookup
  searches the current scope, then its parents, and returns the first match, comparing
  the name and the whole namespace chain. An object carries two identifiers, and an
  enum value is entered under two keys with one insertion, so that lookups by either
  spelling succeed: lookup compares the query with both identifiers of an object.
  A new scope is zeroed, so its kind is the first enumerator, \<^verbatim>\<open>EXPR_ACCESS\<close>.
\<close>

definition scope_push :: "check_ctx \<Rightarrow> check_ctx \<times> scope" where
  "scope_push ctx =
     (let new = \<lparr>addr = next_scope ctx,
                 parent = (case scopes ctx of [] \<Rightarrow> None | p # _ \<Rightarrow> Some (addr p)),
                 stype = EXPR_ACCESS, slabel = None, objects = []\<rparr>
      in (ctx\<lparr>scopes := new # scopes ctx, next_scope := Suc (next_scope ctx)\<rparr>, new))"

definition scope_pop :: "check_ctx \<Rightarrow> error + (check_ctx \<times> scope)" where
  "scope_pop ctx =
     (case scopes ctx of
        [] \<Rightarrow> Inl Assertion_failure
      | prev # rest \<Rightarrow> Inr (ctx\<lparr>scopes := rest\<rparr>, prev))"

text \<open>The assignments \<^verbatim>\<open>scope->type = ...; scope->label = ...\<close> to the scope just pushed.\<close>

definition scope_set :: "expr_type \<Rightarrow> string option \<Rightarrow> check_ctx \<Rightarrow> check_ctx" where
  "scope_set k l ctx =
     (case scopes ctx of
        [] \<Rightarrow> ctx
      | s # rest \<Rightarrow> ctx\<lparr>scopes := s\<lparr>stype := k, slabel := l\<rparr> # rest\<rparr>)"

definition scope_insert ::
  "check_ctx \<Rightarrow> object_type \<Rightarrow> identifier_t \<Rightarrow> identifier_t \<Rightarrow> htype \<Rightarrow> expression option
    \<Rightarrow> error + (check_ctx \<times> scope_object)" where
  "scope_insert ctx ot i n t v =
     (case scopes ctx of
        [] \<Rightarrow> Inl Null_dereference
      | s # rest \<Rightarrow>
          Inr (ctx\<lparr>scopes := s\<lparr>objects := objects s @ [Scope_object ot i n t v]\<rparr> # rest\<rparr>,
               Scope_object ot i n t v))"

text \<open>The same insertion into \<^verbatim>\<open>ctx->unit\<close>, the root of the chain.\<close>

definition scope_insert_unit ::
  "check_ctx \<Rightarrow> object_type \<Rightarrow> identifier_t \<Rightarrow> identifier_t \<Rightarrow> htype \<Rightarrow> expression option
    \<Rightarrow> error + (check_ctx \<times> scope_object)" where
  "scope_insert_unit ctx ot i n t v =
     (case rev (scopes ctx) of
        [] \<Rightarrow> Inl Null_dereference
      | u # inner \<Rightarrow>
          Inr (ctx\<lparr>scopes := rev inner @ [u\<lparr>objects := objects u @ [Scope_object ot i n t v]\<rparr>]\<rparr>,
               Scope_object ot i n t v))"

fun scope_lookup :: "scope list \<Rightarrow> identifier_t \<Rightarrow> scope_object option" where
  "scope_lookup [] i = None"
| "scope_lookup (s # parents) i =
     (case find (\<lambda>obj. ident obj = i \<or> oname obj = i) (objects s) of
        Some obj \<Rightarrow> Some obj
      | None \<Rightarrow> scope_lookup parents i)"

text \<open>\<^verbatim>\<open>mkident\<close>: the identifier, qualified with the namespace of the unit if there is one.\<close>

definition mkident :: "check_ctx \<Rightarrow> identifier_t \<Rightarrow> identifier_t" where
  "mkident ctx i =
     (case ctx_ns ctx of
        None \<Rightarrow> Identifier (name i) (ns i)
      | Some n \<Rightarrow> Identifier (name i) (Some n))"

subsection \<open>Formatting\<close>

text \<open>
  \<^verbatim>\<open>%d\<close> of \<^verbatim>\<open>printf\<close>, and \<^verbatim>\<open>snprintf(buf, size, ...)\<close> on a buffer: at most \<open>size - 1\<close>
  characters of the formatted text are stored, followed by a terminating zero byte;
  the function returns the length of the whole formatted text.
\<close>

fun digits :: "nat \<Rightarrow> string" where
  "digits n = (if n < 10 then [char_of (48 + n)] else digits (n div 10) @ [char_of (48 + n mod 10)])"

declare digits.simps [simp del]

definition decimal :: "int \<Rightarrow> string" where
  "decimal i = (if i < 0 then CHR ''-'' # digits (nat (- i)) else digits (nat i))"

definition snprintf :: "string \<Rightarrow> nat \<Rightarrow> string \<Rightarrow> string" where
  "snprintf buf n formatted =
     (if n = 0 then buf
      else take (n - 1) formatted @ [CHR 0x00] @ drop (Suc (min (n - 1) (length formatted))) buf)"

subsection \<open>Implicit casts\<close>

definition lower_implicit_cast :: "htype \<Rightarrow> expression \<Rightarrow> expression" where
  "lower_implicit_cast to expr =
     (if Some to = result expr then expr
      else Expression EXPR_CAST (Some to) (terminates expr) (P_cast C_CAST expr None))"

section \<open>The expression checker\<close>

text \<open>
  Each \<^verbatim>\<open>check_expr_*\<close> function of \<^verbatim>\<open>check.c\<close> is one definition. The functions call
  \<^verbatim>\<open>check_expression\<close> on their sub-expressions; here that callee is the parameter
  \<open>chk\<close>, and \<open>check_expression\<close> below ties the knot. The context is passed through
  and returned; the node written through the \<^verbatim>\<open>expr\<close> pointer is the second
  component of the result. Diagnostics keep the format string of the source (without
  its quotation marks).
\<close>

subsection \<open>\<^verbatim>\<open>check_expr_access\<close>, by the kind of access\<close>

definition check_expr_access_ident :: "check_ctx \<Rightarrow> location \<Rightarrow> identifier_t \<Rightarrow> checked" where
  "check_expr_access_ident ctx loc i =
     (case scope_lookup (scopes ctx) i of
        None \<Rightarrow> Inl (Error loc ''Unknown object %s'')
      | Some obj \<Rightarrow>
          (case otype obj of
             O_CONST \<Rightarrow>
               (case obj_value obj of
                  None \<Rightarrow> Inl Null_dereference
                | Some v \<Rightarrow> Inr (ctx, v))
           | O_BIND \<Rightarrow>
               Inr (ctx, Expression EXPR_ACCESS (Some (obj_type obj)) False (P_access_ident obj))
           | O_DECL \<Rightarrow>
               Inr (ctx, Expression EXPR_ACCESS (Some (obj_type obj)) False (P_access_ident obj))
           | O_TYPE \<Rightarrow> Inl (Error loc ''Expected identifier, got type'')))"

definition check_expr_access_index ::
  "type_store \<Rightarrow> checker \<Rightarrow> check_ctx \<Rightarrow> location \<Rightarrow> ast_expression \<Rightarrow> ast_expression \<Rightarrow> checked" where
  "check_expr_access_index X chk ctx loc aarray aindex =
     and_then (chk ctx aarray None) (\<lambda>(ctx, array).
     and_then (chk ctx aindex None) (\<lambda>(ctx, index).
     and_then (res array) (\<lambda>ares.
     case type_dereference ares of
       None \<Rightarrow> Inl (Error (ast_loc aarray) ''Cannot dereference nullable pointer for indexing'')
     | Some atype \<Rightarrow>
     and_then (res index) (\<lambda>ires.
     and_then (expect (ast_loc aarray)
        (storage atype = TYPE_STORAGE_ARRAY \<or> storage atype = TYPE_STORAGE_SLICE)
        ''Cannot index non-array, non-slice %s object'') (\<lambda>_.
     and_then (expect (ast_loc aindex) (is_integer X (type_dealias ires))
        ''Cannot use non-integer %s type as slice/array index'') (\<lambda>_.
     and_then (array_members atype) (\<lambda>m.
     case m of
       None \<Rightarrow> Inl Null_dereference
     | Some members \<Rightarrow>
         Inr (ctx, Expression EXPR_ACCESS
                (Some (lookup_with_flags members (flags atype OR flags members))) False
                (P_access_index array (lower_implicit_cast builtin_type_size index))))))))))"

definition check_expr_access_field ::
  "checker \<Rightarrow> check_ctx \<Rightarrow> location \<Rightarrow> ast_expression \<Rightarrow> string \<Rightarrow> checked" where
  "check_expr_access_field chk ctx loc astruct fname =
     and_then (chk ctx astruct None) (\<lambda>(ctx, s).
     and_then (res s) (\<lambda>sres.
     case type_dereference sres of
       None \<Rightarrow>
         Inl (Error (ast_loc astruct) ''Cannot dereference nullable pointer for field selection'')
     | Some st \<Rightarrow>
     and_then (expect (ast_loc astruct)
        (storage st = TYPE_STORAGE_STRUCT \<or> storage st = TYPE_STORAGE_UNION)
        ''Cannot index non-struct, non-union object'') (\<lambda>_.
     case type_get_field st fname of
       None \<Rightarrow> Inl (Error (ast_loc astruct) ''No such struct field %s'')
     | Some field \<Rightarrow>
         Inr (ctx, Expression EXPR_ACCESS (Some (snd field)) False (P_access_field s field)))))"

subsection \<open>\<^verbatim>\<open>check_expr_assert\<close>\<close>

definition assert_format :: "location \<Rightarrow> string" where
  "assert_format loc =
     ''Assertion failed: '' @ path loc @ '':'' @ decimal (lineno loc) @ '':'' @ decimal (colno loc)"

text \<open>
  The message synthesised when the user gave none: \<^verbatim>\<open>n\<close> is the length that the
  first \<^verbatim>\<open>snprintf\<close> reports, \<^verbatim>\<open>s\<close> the zeroed buffer of \<^verbatim>\<open>n + 1\<close> bytes after the second
  \<^verbatim>\<open>snprintf(s, n, ...)\<close>. The node keeps the buffer and the length \<^verbatim>\<open>n\<close>.
\<close>

definition assert_message :: "location \<Rightarrow> expression" where
  "assert_message loc =
     (let n = length (assert_format loc);
          s = snprintf (replicate (n + 1) (CHR 0x00)) n (assert_format loc)
      in Expression EXPR_CONSTANT (Some builtin_type_const_str) False (P_const_string s n))"

definition check_expr_assert ::
  "checker \<Rightarrow> check_ctx \<Rightarrow> location \<Rightarrow> ast_expression option \<Rightarrow> ast_expression option \<Rightarrow> checked" where
  "check_expr_assert chk ctx loc acond amessage =
     and_then
       (case acond of
          Some ac \<Rightarrow>
            and_then (chk ctx ac (Some builtin_type_bool)) (\<lambda>(ctx, c).
            and_then (res c) (\<lambda>t.
            and_then (expect (ast_loc ac) (storage t = TYPE_STORAGE_BOOL)
               ''Assertion condition must be boolean'') (\<lambda>_.
            Inr (ctx, Some c, False))))
        | None \<Rightarrow> Inr (ctx, None, True)) (\<lambda>(ctx, cond, term).
     and_then
       (case amessage of
          Some am \<Rightarrow>
            and_then (chk ctx am (Some builtin_type_str)) (\<lambda>(ctx, m).
            and_then (res m) (\<lambda>t.
            and_then (expect (ast_loc am) (storage t = TYPE_STORAGE_STRING)
               ''Assertion message must be string'') (\<lambda>_.
            Inr (ctx, m))))
        | None \<Rightarrow> Inr (ctx, assert_message loc)) (\<lambda>(ctx, message).
     Inr (ctx, Expression EXPR_ASSERT (Some builtin_type_void) term (P_assert cond message))))"

subsection \<open>\<^verbatim>\<open>check_expr_assign\<close>\<close>

definition check_expr_assign ::
  "type_store \<Rightarrow> checker \<Rightarrow> check_ctx \<Rightarrow> location \<Rightarrow> binarithm_operator \<Rightarrow> ast_expression
    \<Rightarrow> ast_expression \<Rightarrow> bool \<Rightarrow> checked" where
  "check_expr_assign X chk ctx loc op aobject avalue indirect =
     and_then (chk ctx aobject None) (\<lambda>(ctx, object).
     and_then (chk ctx avalue (result object)) (\<lambda>(ctx, v).
     if indirect then
       and_then (res object) (\<lambda>ot.
       and_then (expect loc (storage ot = TYPE_STORAGE_POINTER)
          ''Cannot dereference non-pointer type for assignment'') (\<lambda>_.
       and_then (pointer_info ot) (\<lambda>(referent, pflags).
       and_then (expect loc (pflags AND PTR_NULLABLE = 0)
          ''Cannot dereference nullable pointer type'') (\<lambda>_.
       and_then (res v) (\<lambda>vt.
       and_then (expect loc (is_assignable X referent vt)
          ''Value type is not assignable to pointer type'') (\<lambda>_.
       Inr (ctx, Expression EXPR_ASSIGN (Some builtin_type_void) False
              (P_assign op object (lower_implicit_cast referent v) indirect))))))))
     else
       and_then (c_assert (etype object = EXPR_ACCESS)) (\<lambda>_.
       and_then (res object) (\<lambda>ot.
       and_then (expect loc (flags ot AND TYPE_CONST = 0) ''Cannot assign to const object'') (\<lambda>_.
       and_then (res v) (\<lambda>vt.
       and_then (expect loc (is_assignable X ot vt)
          ''rvalue type is not assignable to lvalue'') (\<lambda>_.
       Inr (ctx, Expression EXPR_ASSIGN (Some builtin_type_void) False
              (P_assign op object (lower_implicit_cast ot v) indirect)))))))))"

subsection \<open>\<^verbatim>\<open>check_expr_binarithm\<close>\<close>

definition numeric_arithmetic :: "binarithm_operator \<Rightarrow> bool" where
  "numeric_arithmetic op =
     (op \<in> {BIN_BAND, BIN_BOR, BIN_DIV, BIN_LSHIFT, BIN_MINUS, BIN_MODULO, BIN_PLUS,
            BIN_RSHIFT, BIN_TIMES, BIN_BXOR})"

definition check_expr_binarithm ::
  "checker \<Rightarrow> check_ctx \<Rightarrow> location \<Rightarrow> binarithm_operator \<Rightarrow> ast_expression \<Rightarrow> ast_expression
    \<Rightarrow> checked" where
  "check_expr_binarithm chk ctx loc op alvalue arvalue =
     and_then (chk ctx alvalue None) (\<lambda>(ctx, lvalue).
     and_then (chk ctx arvalue None) (\<lambda>(ctx, rvalue).
     and_then (res lvalue) (\<lambda>lt.
     and_then (res rvalue) (\<lambda>rt.
     and_then (c_assert (storage lt = storage rt)) (\<lambda>_.
     Inr (ctx, Expression EXPR_BINARITHM
            (if numeric_arithmetic op then result lvalue else Some builtin_type_bool) False
            (P_binarithm op lvalue rvalue)))))))"

subsection \<open>\<^verbatim>\<open>check_expr_binding\<close>\<close>

text \<open>The \<^verbatim>\<open>while (abinding)\<close> loop, one iteration per binding of the chain.\<close>

fun check_bindings ::
  "type_store \<Rightarrow> checker \<Rightarrow> location \<Rightarrow> check_ctx \<Rightarrow> ast_binding list
    \<Rightarrow> error + (check_ctx \<times> (scope_object \<times> expression) list)" where
  "check_bindings X chk loc ctx [] = Inr (ctx, [])"
| "check_bindings X chk loc ctx (ab # rest) =
     and_then
       (case b_type ab of
          None \<Rightarrow> Inr None
        | Some at \<Rightarrow>
            and_then (lookup_atype X (scopes ctx) at) (\<lambda>t.
            Inr (Some (lookup_with_flags t (flags t OR b_flags ab))))) (\<lambda>declared.
     and_then (chk ctx (b_initializer ab) declared) (\<lambda>(ctx, initializer).
     and_then
       (case declared of
          Some t \<Rightarrow> Inr t
        | None \<Rightarrow>
            and_then (res initializer) (\<lambda>it. Inr (lookup_with_flags it (b_flags ab)))) (\<lambda>t.
     and_then (expect loc (tsize t \<noteq> 0 \<and> tsize t \<noteq> SIZE_UNDEFINED)
        ''Cannot create binding for type of zero or undefined size'') (\<lambda>_.
     and_then (res initializer) (\<lambda>it.
     and_then (expect loc (is_assignable X t it)
        ''Initializer is not assignable to binding type'') (\<lambda>_.
     and_then
       (if \<not> b_is_static ab then
          scope_insert ctx O_BIND (Identifier (b_name ab) None) (Identifier (b_name ab) None) t None
        else
          (case eval_expr X initializer of
             None \<Rightarrow>
               Inl (Error (ast_loc (b_initializer ab))
                      ''Unable to evaluate static initializer at compile time'')
           | Some evaluated \<Rightarrow>
               scope_insert (ctx\<lparr>static_id := static_id ctx + 1\<rparr>) O_DECL
                 (Identifier (''static.'' @ decimal (static_id ctx)) None)
                 (Identifier (b_name ab) None) t None)) (\<lambda>(ctx, obj).
     and_then (check_bindings X chk loc ctx rest) (\<lambda>(ctx, more).
     Inr (ctx, (obj, lower_implicit_cast t initializer) # more)))))))))"

definition check_expr_binding ::
  "type_store \<Rightarrow> checker \<Rightarrow> check_ctx \<Rightarrow> location \<Rightarrow> ast_binding \<Rightarrow> ast_binding list \<Rightarrow> checked" where
  "check_expr_binding X chk ctx loc first rest =
     and_then (check_bindings X chk loc ctx (first # rest)) (\<lambda>(ctx, bindings).
     Inr (ctx, Expression EXPR_BINDING (Some builtin_type_void) False (P_binding bindings)))"

subsection \<open>\<^verbatim>\<open>check_expr_array\<close> and \<^verbatim>\<open>check_expr_constant\<close>\<close>

text \<open>
  The \<^verbatim>\<open>while (item)\<close> loop of \<^verbatim>\<open>check_expr_array\<close>: it threads the member type
  \<^verbatim>\<open>type\<close>, which is null until a hint or the first item supplies it, and returns the
  checked items and whether an item carried the expand marker.
\<close>

fun check_array_items ::
  "type_store \<Rightarrow> checker \<Rightarrow> check_ctx \<Rightarrow> ast_array_constant list \<Rightarrow> htype option
    \<Rightarrow> error + (check_ctx \<times> htype option \<times> expression list \<times> bool)" where
  "check_array_items X chk ctx [] member = Inr (ctx, member, [], False)"
| "check_array_items X chk ctx (item # rest) member =
     and_then (chk ctx (item_value item) member) (\<lambda>(ctx, v).
     and_then
       (case member of
          None \<Rightarrow> Inr (result v, v)
        | Some t \<Rightarrow>
            and_then (res v) (\<lambda>vt.
            and_then (expect (ast_loc (item_value item)) (is_assignable X t vt)
               ''Array members must be of a uniform type'') (\<lambda>_.
            Inr (Some t, lower_implicit_cast t v)))) (\<lambda>(member, cur).
     and_then (if item_expand item then c_assert (rest = []) else Inr ()) (\<lambda>_.
     and_then (check_array_items X chk ctx rest member) (\<lambda>(ctx, member, more, expandable).
     Inr (ctx, member, cur # more, item_expand item \<or> expandable)))))"

text \<open>
  The type store is taken to read the member type it is given, so a null member type
  (a literal without items and without hint) ends in a null dereference.
\<close>

definition check_expr_array ::
  "type_store \<Rightarrow> checker \<Rightarrow> check_ctx \<Rightarrow> location \<Rightarrow> ast_array_constant list \<Rightarrow> htype option
    \<Rightarrow> checked" where
  "check_expr_array X chk ctx loc items hint =
     and_then (case hint of None \<Rightarrow> Inr None | Some h \<Rightarrow> array_members h) (\<lambda>member.
     and_then (check_array_items X chk ctx items member) (\<lambda>(ctx, member, values, expandable).
     and_then
       (if expandable then
          (case hint of
             None \<Rightarrow> Inl (Error loc ''Cannot expand array for inferred type'')
           | Some h \<Rightarrow>
               if storage h \<noteq> TYPE_STORAGE_ARRAY
               then Inl (Error loc ''Cannot expand array into destination type'')
               else
                 and_then (array_length h) (\<lambda>hl.
                 and_then (expect loc (hl \<noteq> SIZE_UNDEFINED \<and> length items \<le> hl)
                    ''Cannot expand array into destination type'') (\<lambda>_.
                 Inr hl)))
        else Inr (length items)) (\<lambda>len.
     case member of
       None \<Rightarrow> Inl Null_dereference
     | Some t \<Rightarrow>
         Inr (ctx, Expression EXPR_CONSTANT (Some (lookup_array X t len)) False
                (P_const_array values expandable)))))"

definition check_expr_constant ::
  "type_store \<Rightarrow> checker \<Rightarrow> check_ctx \<Rightarrow> location \<Rightarrow> type_storage \<Rightarrow> ast_constant \<Rightarrow> htype option
    \<Rightarrow> checked" where
  "check_expr_constant X chk ctx loc s c hint =
     (let r = builtin_type_for_storage s False in
      if s \<in> {TYPE_STORAGE_I8, TYPE_STORAGE_I16, TYPE_STORAGE_I32, TYPE_STORAGE_I64,
               TYPE_STORAGE_INT} then
        (case c of
           AC_ival i \<Rightarrow> Inr (ctx, Expression EXPR_CONSTANT r False (P_const_ival i))
         | _ \<Rightarrow> Inl Union_misread)
      else if s \<in> {TYPE_STORAGE_U8, TYPE_STORAGE_U16, TYPE_STORAGE_U32, TYPE_STORAGE_U64,
               TYPE_STORAGE_UINT, TYPE_STORAGE_SIZE} then
        (case c of
           AC_uval u \<Rightarrow> Inr (ctx, Expression EXPR_CONSTANT r False (P_const_uval u))
         | _ \<Rightarrow> Inl Union_misread)
      else if s = TYPE_STORAGE_RUNE then
        (case c of
           AC_rune u \<Rightarrow> Inr (ctx, Expression EXPR_CONSTANT r False (P_const_rune u))
         | _ \<Rightarrow> Inl Union_misread)
      else if s = TYPE_STORAGE_BOOL then
        (case c of
           AC_bval b \<Rightarrow> Inr (ctx, Expression EXPR_CONSTANT r False (P_const_bval b))
         | _ \<Rightarrow> Inl Union_misread)
      else if s = TYPE_STORAGE_NULL \<or> s = TYPE_STORAGE_VOID then
        Inr (ctx, Expression EXPR_CONSTANT r False P_zero)
      else if s = TYPE_STORAGE_ARRAY then
        (case c of
           AC_array items \<Rightarrow> check_expr_array X chk ctx loc items hint
         | _ \<Rightarrow> Inl Union_misread)
      else if s = TYPE_STORAGE_STRING then
        (case c of
           AC_string bytes \<Rightarrow>
             Inr (ctx, Expression EXPR_CONSTANT r False (P_const_string bytes (length bytes)))
         | _ \<Rightarrow> Inl Union_misread)
      else Inl Assertion_failure)"

subsection \<open>\<^verbatim>\<open>lower_vaargs\<close> and \<^verbatim>\<open>check_expr_call\<close>\<close>

text \<open>
  \<^verbatim>\<open>lower_vaargs\<close> builds an array literal from the remaining arguments and has it
  checked. \<^verbatim>\<open>check_expression\<close> dispatches that literal to \<^verbatim>\<open>check_expr_constant\<close>,
  which is called directly here.
\<close>

definition lower_vaargs ::
  "type_store \<Rightarrow> checker \<Rightarrow> check_ctx \<Rightarrow> ast_call_argument \<Rightarrow> ast_call_argument list
    \<Rightarrow> htype option \<Rightarrow> checked" where
  "lower_vaargs X chk ctx aarg rest member =
     (case member of
        None \<Rightarrow> Inl Null_dereference
      | Some t \<Rightarrow>
          and_then
            (check_expr_constant X chk ctx (ast_loc (arg_value aarg)) TYPE_STORAGE_ARRAY
               (AC_array (map (\<lambda>a. Ast_array_constant (arg_value a) False) (aarg # rest)))
               (Some (lookup_array X t SIZE_UNDEFINED))) (\<lambda>(ctx, vaargs).
          and_then (res vaargs) (\<lambda>vt.
          and_then (c_assert (storage vt = TYPE_STORAGE_ARRAY)) (\<lambda>_.
          and_then (array_members vt) (\<lambda>vm.
          and_then (expect (ast_loc (arg_value aarg)) (vm = Some t)
             ''Argument is not assignable to variadic parameter type'') (\<lambda>_.
          Inr (ctx, vaargs)))))))"

text \<open>
  The \<^verbatim>\<open>while (param && aarg)\<close> loop; it returns the checked arguments and whether
  arguments, respectively parameters, were left over.
\<close>

fun check_call_args ::
  "type_store \<Rightarrow> checker \<Rightarrow> variadism \<Rightarrow> check_ctx \<Rightarrow> htype list \<Rightarrow> ast_call_argument list
    \<Rightarrow> error + (check_ctx \<times> expression list \<times> bool \<times> bool)" where
  "check_call_args X chk v ctx (param # params) (aarg # aargs) =
     (if params = [] \<and> v = VARIADISM_HARE \<and> \<not> arg_variadic aarg then
        and_then (array_members param) (\<lambda>member.
        and_then (lower_vaargs X chk ctx aarg aargs member) (\<lambda>(ctx, vaargs).
        Inr (ctx, [lower_implicit_cast param vaargs], False, False)))
      else
        and_then (chk ctx (arg_value aarg) (Some param)) (\<lambda>(ctx, a).
        and_then (res a) (\<lambda>t.
        and_then (expect (ast_loc (arg_value aarg)) (is_assignable X param t)
           ''Argument is not assignable to parameter type'') (\<lambda>_.
        and_then (check_call_args X chk v ctx params aargs) (\<lambda>(ctx, more, al, pl).
        Inr (ctx, lower_implicit_cast param a # more, al, pl))))))"
| "check_call_args X chk v ctx params aargs = Inr (ctx, [], aargs \<noteq> [], params \<noteq> [])"

definition check_expr_call ::
  "type_store \<Rightarrow> checker \<Rightarrow> check_ctx \<Rightarrow> location \<Rightarrow> ast_expression \<Rightarrow> ast_call_argument list
    \<Rightarrow> checked" where
  "check_expr_call X chk ctx loc alvalue aargs =
     and_then (chk ctx alvalue None) (\<lambda>(ctx, lvalue).
     and_then (res lvalue) (\<lambda>lt.
     case type_dereference lt of
       None \<Rightarrow> Inl (Error loc ''Cannot dereference nullable pointer type for function call'')
     | Some fntype \<Rightarrow>
     and_then (expect loc (storage fntype = TYPE_STORAGE_FUNCTION)
        ''Cannot call non-function type'') (\<lambda>_.
     and_then (func_info fntype) (\<lambda>(fresult, v, params).
     and_then (check_call_args X chk v ctx params aargs) (\<lambda>(ctx, args, args_left, params_left).
     and_then (expect loc (\<not> args_left) ''Too many parameters for function call'') (\<lambda>_.
     and_then (expect loc (\<not> params_left) ''Not enough parameters for function call'') (\<lambda>_.
     Inr (ctx, Expression EXPR_CALL (Some fresult) False (P_call lvalue args)))))))))"

subsection \<open>\<^verbatim>\<open>check_expr_cast\<close>\<close>

definition check_expr_cast ::
  "type_store \<Rightarrow> checker \<Rightarrow> check_ctx \<Rightarrow> location \<Rightarrow> cast_kind \<Rightarrow> ast_expression \<Rightarrow> ast_type
    \<Rightarrow> checked" where
  "check_expr_cast X chk ctx loc kind avalue atype =
     and_then (lookup_atype X (scopes ctx) atype) (\<lambda>secondary.
     and_then (chk ctx avalue (Some secondary)) (\<lambda>(ctx, v).
     and_then (res v) (\<lambda>vt.
     and_then (expect (at_loc atype) (is_castable X secondary vt) ''Invalid cast'') (\<lambda>_.
     and_then
       (if kind = C_ASSERTION \<or> kind = C_TEST then
          and_then (expect (ast_loc avalue)
             (storage (type_dealias vt) = TYPE_STORAGE_TAGGED_UNION)
             ''Expected a tagged union type'') (\<lambda>_.
          and_then (tagged_members (type_dealias vt)) (\<lambda>members.
          expect (at_loc atype) (secondary \<in> set members)
            ''Type is not a valid member of the tagged union type''))
        else Inr ()) (\<lambda>_.
     Inr (ctx, Expression EXPR_CAST
            (if kind = C_TEST then Some builtin_type_bool else Some secondary) False
            (P_cast kind v (Some secondary))))))))"

subsection \<open>\<^verbatim>\<open>check_expr_defer\<close>\<close>

definition check_expr_defer :: "checker \<Rightarrow> check_ctx \<Rightarrow> location \<Rightarrow> ast_expression \<Rightarrow> checked" where
  "check_expr_defer chk ctx loc adeferred =
     and_then (expect loc (\<not> deferring ctx)
        ''Cannot defer within another defer expression.'') (\<lambda>_.
     and_then (chk (ctx\<lparr>deferring := True\<rparr>) adeferred None) (\<lambda>(ctx, deferred).
     Inr (ctx\<lparr>deferring := False\<rparr>,
          Expression EXPR_DEFER (Some builtin_type_void) False (P_defer deferred))))"

subsection \<open>\<^verbatim>\<open>check_expr_control\<close>\<close>

text \<open>
  The \<^verbatim>\<open>for\<close> loop over \<^verbatim>\<open>scope = scope->parent\<close>: the scope at which the loop stops,
  or none when it runs off the root of the chain.
\<close>

fun control_scope :: "string option \<Rightarrow> scope list \<Rightarrow> scope option" where
  "control_scope label [] = None"
| "control_scope label (s # parents) =
     (if stype s \<noteq> EXPR_FOR then control_scope label parents
      else if label = None then Some s
      else if slabel s \<noteq> None \<and> label = slabel s then Some s
      else control_scope label parents)"

definition check_expr_control ::
  "check_ctx \<Rightarrow> location \<Rightarrow> expr_type \<Rightarrow> string option \<Rightarrow> checked" where
  "check_expr_control ctx loc kind label =
     and_then (expect loc (control_scope label (scopes ctx) \<noteq> None) ''Unknown label %s'') (\<lambda>_.
     Inr (ctx, Expression kind None True (P_control label)))"

subsection \<open>\<^verbatim>\<open>check_expr_for\<close>\<close>

text \<open>The loop over the ancestors of the new scope that enforces unique labels.\<close>

fun for_label_unique :: "location \<Rightarrow> string \<Rightarrow> scope list \<Rightarrow> error + unit" where
  "for_label_unique label_loc label [] = Inr ()"
| "for_label_unique label_loc label (s # parents) =
     (case slabel s of
        None \<Rightarrow> for_label_unique label_loc label parents
      | Some l \<Rightarrow>
          and_then (expect label_loc (l \<noteq> label)
             ''for loop label must be unique among its ancestors'') (\<lambda>_.
          for_label_unique label_loc label parents))"

definition check_expr_for ::
  "checker \<Rightarrow> check_ctx \<Rightarrow> location \<Rightarrow> string option \<Rightarrow> location \<Rightarrow> ast_expression option
    \<Rightarrow> ast_expression \<Rightarrow> ast_expression option \<Rightarrow> ast_expression \<Rightarrow> checked" where
  "check_expr_for chk ctx loc label label_loc abindings acond aafterthought abody =
     (let (pushed, scope) = scope_push ctx; ctx = scope_set EXPR_FOR label pushed in
     and_then
       (case label of
          None \<Rightarrow> Inr ()
        | Some l \<Rightarrow> for_label_unique label_loc l (tl (scopes ctx))) (\<lambda>_.
     and_then
       (case abindings of
          None \<Rightarrow> Inr (ctx, None)
        | Some ab \<Rightarrow> and_then (chk ctx ab None) (\<lambda>(ctx, b). Inr (ctx, Some b))) (\<lambda>(ctx, bindings).
     and_then (chk ctx acond (Some builtin_type_bool)) (\<lambda>(ctx, cond).
     and_then (res cond) (\<lambda>ct.
     and_then (expect (ast_loc acond) (storage ct = TYPE_STORAGE_BOOL)
        ''Expected for condition to be boolean'') (\<lambda>_.
     and_then
       (case aafterthought of
          None \<Rightarrow> Inr (ctx, None)
        | Some aa \<Rightarrow> and_then (chk ctx aa None) (\<lambda>(ctx, a). Inr (ctx, Some a))) (\<lambda>(ctx, afterthought).
     and_then (chk ctx abody None) (\<lambda>(ctx, body).
     and_then (scope_pop ctx) (\<lambda>(ctx, popped).
     Inr (ctx, Expression EXPR_FOR (Some builtin_type_void) False
            (P_for label (addr scope) bindings cond afterthought body)))))))))))"

subsection \<open>\<^verbatim>\<open>check_expr_if\<close>\<close>

definition check_expr_if ::
  "checker \<Rightarrow> check_ctx \<Rightarrow> location \<Rightarrow> ast_expression \<Rightarrow> ast_expression \<Rightarrow> ast_expression option
    \<Rightarrow> checked" where
  "check_expr_if chk ctx loc acond atrue afalse =
     and_then (chk ctx acond (Some builtin_type_bool)) (\<lambda>(ctx, cond).
     and_then (chk ctx atrue None) (\<lambda>(ctx, true_branch).
     and_then
       (case afalse of
          Some af \<Rightarrow>
            and_then (chk ctx af None) (\<lambda>(ctx, false_branch).
            if terminates true_branch \<and> terminates false_branch then
              Inr (ctx, Some false_branch, Some builtin_type_void, False)
            else if terminates true_branch then
              Inr (ctx, Some false_branch, result false_branch, False)
            else if terminates false_branch then
              Inr (ctx, Some false_branch, result true_branch, False)
            else
              and_then (c_assert (result true_branch = result false_branch)) (\<lambda>_.
              Inr (ctx, Some false_branch, result true_branch, False)))
        | None \<Rightarrow> Inr (ctx, None, Some builtin_type_void, terminates true_branch))
       (\<lambda>(ctx, false_branch, r, t).
     and_then (res cond) (\<lambda>ct.
     and_then (expect (ast_loc acond) (storage ct = TYPE_STORAGE_BOOL)
        ''Expected if condition to be boolean'') (\<lambda>_.
     Inr (ctx, Expression EXPR_IF r t (P_if cond true_branch false_branch)))))))"

subsection \<open>\<^verbatim>\<open>check_expr_list\<close>\<close>

text \<open>
  The \<^verbatim>\<open>while (alist)\<close> loop. The chain has its first link embedded in the node, so it
  is never empty; the result and the flag are taken from the last expression.
\<close>

fun check_list_items ::
  "checker \<Rightarrow> check_ctx \<Rightarrow> ast_expression list
    \<Rightarrow> error + (check_ctx \<times> expression list \<times> htype option \<times> bool)" where
  "check_list_items chk ctx [] = Inr (ctx, [], None, False)"
| "check_list_items chk ctx (a # rest) =
     and_then (chk ctx a None) (\<lambda>(ctx, lexpr).
     if rest = [] then Inr (ctx, [lexpr], result lexpr, terminates lexpr)
     else
       and_then (check_list_items chk ctx rest) (\<lambda>(ctx, more, r, t).
       Inr (ctx, lexpr # more, r, t)))"

definition check_expr_list ::
  "checker \<Rightarrow> check_ctx \<Rightarrow> location \<Rightarrow> ast_expression \<Rightarrow> ast_expression list \<Rightarrow> checked" where
  "check_expr_list chk ctx loc first rest =
     (let (pushed, scope) = scope_push ctx; ctx = scope_set EXPR_LIST None pushed in
     and_then (check_list_items chk ctx (first # rest)) (\<lambda>(ctx, exprs, r, t).
     and_then (scope_pop ctx) (\<lambda>(ctx, popped).
     Inr (ctx, Expression EXPR_LIST r t (P_list exprs (addr scope))))))"

subsection \<open>\<^verbatim>\<open>check_expr_measure\<close>\<close>

definition check_expr_measure_len ::
  "checker \<Rightarrow> check_ctx \<Rightarrow> location \<Rightarrow> ast_expression \<Rightarrow> checked" where
  "check_expr_measure_len chk ctx loc avalue =
     and_then (chk ctx avalue None) (\<lambda>(ctx, v).
     and_then (res v) (\<lambda>vt.
     and_then (expect (ast_loc avalue)
        (storage vt = TYPE_STORAGE_ARRAY \<or> storage vt = TYPE_STORAGE_SLICE
          \<or> storage vt = TYPE_STORAGE_STRING)
        ''len argument must be of an array, slice, or str type'') (\<lambda>_.
     and_then (expect (ast_loc avalue) (tsize vt \<noteq> SIZE_UNDEFINED)
        ''Cannot take length of array type with undefined length'') (\<lambda>_.
     Inr (ctx, Expression EXPR_MEASURE (Some builtin_type_size) False (P_measure_len v))))))"

definition check_expr_measure_size ::
  "type_store \<Rightarrow> check_ctx \<Rightarrow> location \<Rightarrow> ast_type \<Rightarrow> checked" where
  "check_expr_measure_size X ctx loc atype =
     and_then (lookup_atype X (scopes ctx) atype) (\<lambda>t.
     Inr (ctx, Expression EXPR_MEASURE (Some builtin_type_size) False (P_measure_size t)))"

subsection \<open>\<^verbatim>\<open>check_expr_return\<close>\<close>

definition check_expr_return ::
  "type_store \<Rightarrow> checker \<Rightarrow> check_ctx \<Rightarrow> location \<Rightarrow> ast_expression option \<Rightarrow> checked" where
  "check_expr_return X chk ctx loc avalue =
     (case avalue of
        None \<Rightarrow> Inr (ctx, Expression EXPR_RETURN (Some builtin_type_void) True (P_return None))
      | Some av \<Rightarrow>
          (case current_fntype ctx of
             None \<Rightarrow> Inl Null_dereference
           | Some fntype \<Rightarrow>
               and_then (func_info fntype) (\<lambda>(fresult, v, params).
               and_then (chk ctx av (Some fresult)) (\<lambda>(ctx, rval).
               and_then (res rval) (\<lambda>rt.
               and_then (expect (ast_loc av) (is_assignable X fresult rt)
                  ''Return value is not assignable to function result type'') (\<lambda>_.
               Inr (ctx, Expression EXPR_RETURN (Some builtin_type_void) True
                      (P_return (Some (if Some fresult \<noteq> result rval
                                       then lower_implicit_cast fresult rval
                                       else rval))))))))))"

subsection \<open>\<^verbatim>\<open>check_expr_slice\<close>\<close>

text \<open>An optional bound: checked without hint, required to be an integer, cast to \<open>size\<close>.\<close>

definition check_slice_bound ::
  "type_store \<Rightarrow> checker \<Rightarrow> check_ctx \<Rightarrow> ast_expression option
    \<Rightarrow> error + (check_ctx \<times> expression option)" where
  "check_slice_bound X chk ctx abound =
     (case abound of
        None \<Rightarrow> Inr (ctx, None)
      | Some ab \<Rightarrow>
          and_then (chk ctx ab None) (\<lambda>(ctx, b).
          and_then (res b) (\<lambda>bt.
          and_then (expect (ast_loc ab) (is_integer X (type_dealias bt))
             ''Cannot use non-integer %s type as slicing operand'') (\<lambda>_.
          Inr (ctx, Some (lower_implicit_cast builtin_type_size b))))))"

definition check_expr_slice ::
  "type_store \<Rightarrow> checker \<Rightarrow> check_ctx \<Rightarrow> location \<Rightarrow> ast_expression \<Rightarrow> ast_expression option
    \<Rightarrow> ast_expression option \<Rightarrow> checked" where
  "check_expr_slice X chk ctx loc aobject astart aend =
     and_then (chk ctx aobject None) (\<lambda>(ctx, object).
     and_then (res object) (\<lambda>ot.
     and_then (expect (ast_loc aobject) (type_dereference ot \<noteq> None)
        ''Cannot dereference nullable pointer for slicing'') (\<lambda>_.
     and_then (expect (ast_loc aobject)
        (storage ot = TYPE_STORAGE_SLICE \<or> storage ot = TYPE_STORAGE_ARRAY)
        ''Cannot slice non-array, non-slice object'') (\<lambda>_.
     and_then (check_slice_bound X chk ctx astart) (\<lambda>(ctx, start).
     and_then (check_slice_bound X chk ctx aend) (\<lambda>(ctx, end_bound).
     and_then (array_members ot) (\<lambda>m.
     case m of
       None \<Rightarrow> Inl Null_dereference
     | Some members \<Rightarrow>
         Inr (ctx, Expression EXPR_SLICE (Some (lookup_slice X members)) False
                (P_slice object start end_bound)))))))))"

subsection \<open>\<^verbatim>\<open>check_expr_struct\<close>\<close>

text \<open>
  The first loop checks each initializer under its declared field type; the second
  resolves each field in the struct type built from the literal and casts the value.
  A literal without fields still runs the second loop once, on the zeroed first link;
  that iteration is taken to fail at its first \<^verbatim>\<open>expect\<close>.
\<close>

definition zero_loc :: location where
  "zero_loc = \<lparr>path = [], lineno = 0, colno = 0\<rparr>"

fun check_struct_fields ::
  "type_store \<Rightarrow> checker \<Rightarrow> check_ctx \<Rightarrow> ast_field_value list
    \<Rightarrow> error + (check_ctx \<times> expression list)" where
  "check_struct_fields X chk ctx [] = Inr (ctx, [])"
| "check_struct_fields X chk ctx (af # rest) =
     and_then (c_assert (\<not> f_is_embedded af)) (\<lambda>_.
     and_then (lookup_atype X (scopes ctx) (f_type af)) (\<lambda>t.
     and_then (chk ctx (f_initializer af) (Some t)) (\<lambda>(ctx, v).
     and_then (check_struct_fields X chk ctx rest) (\<lambda>(ctx, more).
     Inr (ctx, v # more)))))"

fun check_struct_values ::
  "type_store \<Rightarrow> location \<Rightarrow> htype \<Rightarrow> ast_field_value list \<Rightarrow> expression list
    \<Rightarrow> error + ((string \<times> htype) \<times> expression) list" where
  "check_struct_values X loc t (af # afs) (v # vs) =
     (case type_get_field t (f_name af) of
        None \<Rightarrow> Inl (Error loc ''No field by this name exists for this type'')
      | Some field \<Rightarrow>
          and_then (res v) (\<lambda>vt.
          and_then (expect loc (is_assignable X (snd field) vt)
             ''Cannot initialize struct field from value of this type'') (\<lambda>_.
          and_then (check_struct_values X loc t afs vs) (\<lambda>more.
          Inr ((field, lower_implicit_cast (snd field) v) # more)))))"
| "check_struct_values X loc t afs vs = Inr []"

definition check_expr_struct ::
  "type_store \<Rightarrow> checker \<Rightarrow> check_ctx \<Rightarrow> location \<Rightarrow> bool \<Rightarrow> string option
    \<Rightarrow> ast_field_value list \<Rightarrow> checked" where
  "check_expr_struct X chk ctx loc autofill type_name afields =
     and_then (c_assert (\<not> autofill)) (\<lambda>_.
     and_then (c_assert (type_name = None)) (\<lambda>_.
     and_then (check_struct_fields X chk ctx afields) (\<lambda>(ctx, vs).
     and_then (lookup_atype X (scopes ctx)
        (Ast_type zero_loc TYPE_STORAGE_STRUCT TYPE_CONST
           (AT_struct_union (map (\<lambda>af. (f_name af, f_type af)) afields)))) (\<lambda>t.
     if afields = [] then Inl (Error loc ''No field by this name exists for this type'')
     else
       and_then (check_struct_values X loc t afields vs) (\<lambda>fs.
       Inr (ctx, Expression EXPR_STRUCT (Some t) False (P_struct fs)))))))"

subsection \<open>\<^verbatim>\<open>check_expr_switch\<close>\<close>

text \<open>The inner loop over the options of one case.\<close>

fun check_case_options ::
  "type_store \<Rightarrow> checker \<Rightarrow> check_ctx \<Rightarrow> htype option \<Rightarrow> ast_expression list
    \<Rightarrow> error + (check_ctx \<times> expression list)" where
  "check_case_options X chk ctx t [] = Inr (ctx, [])"
| "check_case_options X chk ctx t (aopt # rest) =
     and_then (chk ctx aopt t) (\<lambda>(ctx, v).
     and_then (expect (ast_loc aopt) (t = result v) ''Invalid type for switch case'') (\<lambda>_.
     case eval_expr X v of
       None \<Rightarrow> Inl (Error (ast_loc aopt) ''Unable to evaluate case at compile time'')
     | Some evaled \<Rightarrow>
         and_then (check_case_options X chk ctx t rest) (\<lambda>(ctx, more).
         Inr (ctx, evaled # more))))"

text \<open>
  The outer loop over the cases. It threads \<^verbatim>\<open>expr->result\<close>, which is null until the
  first case whose body does not terminate.
\<close>

fun check_switch_cases ::
  "type_store \<Rightarrow> checker \<Rightarrow> check_ctx \<Rightarrow> htype option \<Rightarrow> htype option \<Rightarrow> ast_switch_case list
    \<Rightarrow> error + (check_ctx \<times> htype option \<times> (expression list \<times> expression) list)" where
  "check_switch_cases X chk ctx t r [] = Inr (ctx, r, [])"
| "check_switch_cases X chk ctx t r (acase # rest) =
     and_then (check_case_options X chk ctx t (case_options acase)) (\<lambda>(ctx, options).
     and_then (chk ctx (case_value acase) t) (\<lambda>(ctx, body).
     and_then
       (if terminates body then Inr r
        else if r = None then Inr (result body)
        else if r \<noteq> result body then Inl Assertion_failure
        else Inr r) (\<lambda>r.
     and_then (check_switch_cases X chk ctx t r rest) (\<lambda>(ctx, r, more).
     Inr (ctx, r, (options, body) # more)))))"

definition check_expr_switch ::
  "type_store \<Rightarrow> checker \<Rightarrow> check_ctx \<Rightarrow> location \<Rightarrow> ast_expression \<Rightarrow> ast_switch_case list
    \<Rightarrow> checked" where
  "check_expr_switch X chk ctx loc avalue acases =
     and_then (chk ctx avalue None) (\<lambda>(ctx, v).
     and_then (check_switch_cases X chk ctx (result v) None acases) (\<lambda>(ctx, r, cases).
     if r = None then
       Inr (ctx, Expression EXPR_SWITCH (Some builtin_type_void) True (P_switch v cases))
     else Inr (ctx, Expression EXPR_SWITCH r False (P_switch v cases))))"

subsection \<open>\<^verbatim>\<open>check_expr_unarithm\<close>\<close>

definition check_expr_unarithm ::
  "type_store \<Rightarrow> checker \<Rightarrow> check_ctx \<Rightarrow> location \<Rightarrow> unarithm_operator \<Rightarrow> ast_expression
    \<Rightarrow> checked" where
  "check_expr_unarithm X chk ctx loc op aoperand =
     and_then (chk ctx aoperand None) (\<lambda>(ctx, operand).
     and_then (res operand) (\<lambda>ot.
     and_then
       (case op of
          UN_LNOT \<Rightarrow>
            and_then (expect (ast_loc aoperand) (storage ot = TYPE_STORAGE_BOOL)
               ''Cannot perform logical NOT (!) on non-boolean type'') (\<lambda>_.
            Inr builtin_type_bool)
        | UN_BNOT \<Rightarrow>
            and_then (expect (ast_loc aoperand) (is_integer X ot)
               ''Cannot perform binary NOT (~) on non-integer type'') (\<lambda>_.
            and_then (expect (ast_loc aoperand) (\<not> is_signed X ot)
               ''Cannot perform binary NOT (~) on signed type'') (\<lambda>_.
            Inr ot))
        | UN_MINUS \<Rightarrow>
            and_then (expect (ast_loc aoperand) (is_numeric X ot)
               ''Cannot perform operation on non-numeric type'') (\<lambda>_.
            and_then (expect (ast_loc aoperand) (is_signed X ot)
               ''Cannot perform operation on unsigned type'') (\<lambda>_.
            Inr ot))
        | UN_PLUS \<Rightarrow>
            and_then (expect (ast_loc aoperand) (is_numeric X ot)
               ''Cannot perform operation on non-numeric type'') (\<lambda>_.
            and_then (expect (ast_loc aoperand) (is_signed X ot)
               ''Cannot perform operation on unsigned type'') (\<lambda>_.
            Inr ot))
        | UN_ADDRESS \<Rightarrow> Inr (lookup_pointer X ot 0)
        | UN_DEREF \<Rightarrow>
            and_then (expect (ast_loc aoperand) (storage ot = TYPE_STORAGE_POINTER)
               ''Cannot de-reference non-pointer type'') (\<lambda>_.
            and_then (pointer_info ot) (\<lambda>(referent, pflags).
            and_then (expect (ast_loc aoperand) (pflags AND PTR_NULLABLE = 0)
               ''Cannot dereference nullable pointer type'') (\<lambda>_.
            Inr referent)))) (\<lambda>r.
     Inr (ctx, Expression EXPR_UNARITHM (Some r) False (P_unarithm op operand)))))"

subsection \<open>\<^verbatim>\<open>check_expression\<close>\<close>

text \<open>
  Each checking function consults \<open>chk\<close> on sub-expressions of its node only. These
  congruence rules say so, and are what the termination proof of the dispatcher needs.
\<close>

lemma and_then_cong:
  "m = m' \<Longrightarrow> (\<And>x. m' = Inr x \<Longrightarrow> f x = f' x) \<Longrightarrow> and_then m f = and_then m' f'"
  by (auto simp: and_then_def split: sum.splits)

lemma check_expr_access_index_cong [fundef_cong]:
  "(\<And>c a h. a = aarray \<or> a = aindex \<Longrightarrow> chk c a h = chk' c a h)
   \<Longrightarrow> check_expr_access_index X chk ctx loc aarray aindex
     = check_expr_access_index X chk' ctx loc aarray aindex"
  unfolding check_expr_access_index_def by simp

lemma check_expr_access_field_cong [fundef_cong]:
  "(\<And>c a h. a = astruct \<Longrightarrow> chk c a h = chk' c a h)
   \<Longrightarrow> check_expr_access_field chk ctx loc astruct fname
     = check_expr_access_field chk' ctx loc astruct fname"
  unfolding check_expr_access_field_def by simp

lemma check_expr_assert_cong [fundef_cong]:
  "(\<And>c a h. a \<in> set_option acond \<union> set_option amessage \<Longrightarrow> chk c a h = chk' c a h)
   \<Longrightarrow> check_expr_assert chk ctx loc acond amessage
     = check_expr_assert chk' ctx loc acond amessage"
  unfolding check_expr_assert_def by (cases acond; cases amessage; simp)

lemma check_expr_assign_cong [fundef_cong]:
  "(\<And>c a h. a = aobject \<or> a = avalue \<Longrightarrow> chk c a h = chk' c a h)
   \<Longrightarrow> check_expr_assign X chk ctx loc op aobject avalue indirect
     = check_expr_assign X chk' ctx loc op aobject avalue indirect"
  unfolding check_expr_assign_def by simp

lemma check_expr_binarithm_cong [fundef_cong]:
  "(\<And>c a h. a = alvalue \<or> a = arvalue \<Longrightarrow> chk c a h = chk' c a h)
   \<Longrightarrow> check_expr_binarithm chk ctx loc op alvalue arvalue
     = check_expr_binarithm chk' ctx loc op alvalue arvalue"
  unfolding check_expr_binarithm_def by simp

lemma check_bindings_cong:
  "(\<And>c a h. a \<in> b_initializer ` set bs \<Longrightarrow> chk c a h = chk' c a h)
   \<Longrightarrow> check_bindings X chk loc ctx bs = check_bindings X chk' loc ctx bs"
  by (induction bs arbitrary: ctx) (auto intro!: and_then_cong)

lemma check_expr_binding_cong [fundef_cong]:
  "(\<And>c a h. a \<in> b_initializer ` set (first # rest) \<Longrightarrow> chk c a h = chk' c a h)
   \<Longrightarrow> check_expr_binding X chk ctx loc first rest
     = check_expr_binding X chk' ctx loc first rest"
proof -
  assume h: "\<And>c a h. a \<in> b_initializer ` set (first # rest) \<Longrightarrow> chk c a h = chk' c a h"
  have "check_bindings X chk loc c (first # rest) = check_bindings X chk' loc c (first # rest)"
    for c
    by (rule check_bindings_cong) (rule h)
  then show ?thesis by (simp only: check_expr_binding_def)
qed

lemma check_array_items_cong:
  "(\<And>c a h. a \<in> item_value ` set items \<Longrightarrow> chk c a h = chk' c a h)
   \<Longrightarrow> check_array_items X chk ctx items member = check_array_items X chk' ctx items member"
  by (induction items arbitrary: ctx member) (auto intro!: and_then_cong)

lemma check_expr_array_cong:
  "(\<And>c a h. a \<in> item_value ` set items \<Longrightarrow> chk c a h = chk' c a h)
   \<Longrightarrow> check_expr_array X chk ctx loc items hint = check_expr_array X chk' ctx loc items hint"
proof -
  assume h: "\<And>c a h. a \<in> item_value ` set items \<Longrightarrow> chk c a h = chk' c a h"
  have "check_array_items X chk c items m = check_array_items X chk' c items m" for c m
    by (rule check_array_items_cong) (rule h)
  then show ?thesis by (simp only: check_expr_array_def)
qed

fun constant_items :: "ast_constant \<Rightarrow> ast_array_constant list" where
  "constant_items (AC_array items) = items"
| "constant_items _ = []"

lemma check_expr_constant_cong [fundef_cong]:
  "(\<And>c a h. a \<in> item_value ` set (constant_items k) \<Longrightarrow> chk c a h = chk' c a h)
   \<Longrightarrow> check_expr_constant X chk ctx loc s k hint = check_expr_constant X chk' ctx loc s k hint"
proof -
  assume h: "\<And>c a h. a \<in> item_value ` set (constant_items k) \<Longrightarrow> chk c a h = chk' c a h"
  have eq: "check_expr_array X chk c l (constant_items k) hint
      = check_expr_array X chk' c l (constant_items k) hint" for c l hint
    by (rule check_expr_array_cong) (rule h)
  show ?thesis unfolding check_expr_constant_def by (cases k) (use eq in \<open>simp_all add: Let_def\<close>)
qed

lemma lower_vaargs_cong:
  "(\<And>c a h. a \<in> arg_value ` set (aarg # rest) \<Longrightarrow> chk c a h = chk' c a h)
   \<Longrightarrow> lower_vaargs X chk ctx aarg rest member = lower_vaargs X chk' ctx aarg rest member"
proof -
  assume h: "\<And>c a h. a \<in> arg_value ` set (aarg # rest) \<Longrightarrow> chk c a h = chk' c a h"
  have "check_expr_constant X chk ctx l TYPE_STORAGE_ARRAY
          (AC_array (map (\<lambda>a. Ast_array_constant (arg_value a) False) (aarg # rest))) hint
      = check_expr_constant X chk' ctx l TYPE_STORAGE_ARRAY
          (AC_array (map (\<lambda>a. Ast_array_constant (arg_value a) False) (aarg # rest))) hint"
    for l hint
    by (rule check_expr_constant_cong) (use h in \<open>auto simp: image_iff\<close>)
  then show ?thesis by (simp only: lower_vaargs_def)
qed

lemma check_call_args_cong:
  "(\<And>c a h. a \<in> arg_value ` set aargs \<Longrightarrow> chk c a h = chk' c a h)
   \<Longrightarrow> check_call_args X chk v ctx params aargs = check_call_args X chk' v ctx params aargs"
proof (induction aargs arbitrary: ctx params)
  case Nil
  then show ?case by (cases params) simp_all
next
  case (Cons aarg aargs)
  have va: "lower_vaargs X chk c aarg aargs m = lower_vaargs X chk' c aarg aargs m" for c m
    using Cons.prems by (intro lower_vaargs_cong) auto
  have tl: "check_call_args X chk v c ps aargs = check_call_args X chk' v c ps aargs" for c ps
    using Cons.prems by (intro Cons.IH) auto
  have hd: "chk c (arg_value aarg) h = chk' c (arg_value aarg) h" for c h
    using Cons.prems by simp
  show ?case by (cases params) (simp_all add: va tl hd)
qed

lemma check_expr_call_cong [fundef_cong]:
  "(\<And>c a h. a = alvalue \<or> a \<in> arg_value ` set aargs \<Longrightarrow> chk c a h = chk' c a h)
   \<Longrightarrow> check_expr_call X chk ctx loc alvalue aargs = check_expr_call X chk' ctx loc alvalue aargs"
proof -
  assume h: "\<And>c a h. a = alvalue \<or> a \<in> arg_value ` set aargs \<Longrightarrow> chk c a h = chk' c a h"
  have "check_call_args X chk v c ps aargs = check_call_args X chk' v c ps aargs" for v c ps
    by (rule check_call_args_cong) (simp add: h)
  moreover have "chk c alvalue hint = chk' c alvalue hint" for c hint
    by (simp add: h)
  ultimately show ?thesis by (simp only: check_expr_call_def)
qed

lemma check_expr_cast_cong [fundef_cong]:
  "(\<And>c a h. a = avalue \<Longrightarrow> chk c a h = chk' c a h)
   \<Longrightarrow> check_expr_cast X chk ctx loc kind avalue atype
     = check_expr_cast X chk' ctx loc kind avalue atype"
  unfolding check_expr_cast_def by simp

lemma check_expr_defer_cong [fundef_cong]:
  "(\<And>c a h. a = adeferred \<Longrightarrow> chk c a h = chk' c a h)
   \<Longrightarrow> check_expr_defer chk ctx loc adeferred = check_expr_defer chk' ctx loc adeferred"
  unfolding check_expr_defer_def by simp

lemma check_expr_for_cong [fundef_cong]:
  "(\<And>c a h. a \<in> set_option abindings \<union> {acond} \<union> set_option aafterthought \<union> {abody}
      \<Longrightarrow> chk c a h = chk' c a h)
   \<Longrightarrow> check_expr_for chk ctx loc label label_loc abindings acond aafterthought abody
     = check_expr_for chk' ctx loc label label_loc abindings acond aafterthought abody"
  unfolding check_expr_for_def by (cases abindings; cases aafterthought; simp add: case_prod_beta)

lemma check_expr_if_cong [fundef_cong]:
  "(\<And>c a h. a \<in> {acond, atrue} \<union> set_option afalse \<Longrightarrow> chk c a h = chk' c a h)
   \<Longrightarrow> check_expr_if chk ctx loc acond atrue afalse = check_expr_if chk' ctx loc acond atrue afalse"
  unfolding check_expr_if_def by (cases afalse; simp)

lemma check_list_items_cong:
  "(\<And>c a h. a \<in> set as \<Longrightarrow> chk c a h = chk' c a h)
   \<Longrightarrow> check_list_items chk ctx as = check_list_items chk' ctx as"
  by (induction as arbitrary: ctx) (auto intro!: and_then_cong)

lemma check_expr_list_cong [fundef_cong]:
  "(\<And>c a h. a \<in> set (first # rest) \<Longrightarrow> chk c a h = chk' c a h)
   \<Longrightarrow> check_expr_list chk ctx loc first rest = check_expr_list chk' ctx loc first rest"
proof -
  assume h: "\<And>c a h. a \<in> set (first # rest) \<Longrightarrow> chk c a h = chk' c a h"
  have "check_list_items chk c (first # rest) = check_list_items chk' c (first # rest)" for c
    by (rule check_list_items_cong) (rule h)
  then show ?thesis by (simp only: check_expr_list_def)
qed

lemma check_expr_measure_len_cong [fundef_cong]:
  "(\<And>c a h. a = avalue \<Longrightarrow> chk c a h = chk' c a h)
   \<Longrightarrow> check_expr_measure_len chk ctx loc avalue = check_expr_measure_len chk' ctx loc avalue"
  unfolding check_expr_measure_len_def by simp

lemma check_expr_return_cong [fundef_cong]:
  "(\<And>c a h. a \<in> set_option avalue \<Longrightarrow> chk c a h = chk' c a h)
   \<Longrightarrow> check_expr_return X chk ctx loc avalue = check_expr_return X chk' ctx loc avalue"
proof (cases avalue)
  case None
  then show ?thesis by (simp add: check_expr_return_def)
next
  case (Some av)
  assume "\<And>c a h. a \<in> set_option avalue \<Longrightarrow> chk c a h = chk' c a h"
  with Some have "chk c av h = chk' c av h" for c h by simp
  with Some show ?thesis by (simp add: check_expr_return_def split: option.splits)
qed

lemma check_slice_bound_cong:
  "(\<And>c a h. a \<in> set_option abound \<Longrightarrow> chk c a h = chk' c a h)
   \<Longrightarrow> check_slice_bound X chk ctx abound = check_slice_bound X chk' ctx abound"
proof (cases abound)
  case None
  then show ?thesis by (simp add: check_slice_bound_def)
next
  case (Some ab)
  assume "\<And>c a h. a \<in> set_option abound \<Longrightarrow> chk c a h = chk' c a h"
  with Some have "chk c ab h = chk' c ab h" for c h by simp
  with Some show ?thesis by (simp add: check_slice_bound_def)
qed

lemma check_expr_slice_cong [fundef_cong]:
  "(\<And>c a h. a \<in> {aobject} \<union> set_option astart \<union> set_option aend \<Longrightarrow> chk c a h = chk' c a h)
   \<Longrightarrow> check_expr_slice X chk ctx loc aobject astart aend
     = check_expr_slice X chk' ctx loc aobject astart aend"
proof -
  assume h: "\<And>c a h. a \<in> {aobject} \<union> set_option astart \<union> set_option aend
    \<Longrightarrow> chk c a h = chk' c a h"
  have "check_slice_bound X chk c astart = check_slice_bound X chk' c astart"
    and "check_slice_bound X chk c aend = check_slice_bound X chk' c aend" for c
    by (rule check_slice_bound_cong, simp add: h)+
  moreover have "chk c aobject hint = chk' c aobject hint" for c hint
    by (simp add: h)
  ultimately show ?thesis by (simp only: check_expr_slice_def)
qed

lemma check_struct_fields_cong:
  "(\<And>c a h. a \<in> f_initializer ` set afields \<Longrightarrow> chk c a h = chk' c a h)
   \<Longrightarrow> check_struct_fields X chk ctx afields = check_struct_fields X chk' ctx afields"
  by (induction afields arbitrary: ctx) (auto intro!: and_then_cong)

lemma check_expr_struct_cong [fundef_cong]:
  "(\<And>c a h. a \<in> f_initializer ` set afields \<Longrightarrow> chk c a h = chk' c a h)
   \<Longrightarrow> check_expr_struct X chk ctx loc autofill type_name afields
     = check_expr_struct X chk' ctx loc autofill type_name afields"
proof -
  assume h: "\<And>c a h. a \<in> f_initializer ` set afields \<Longrightarrow> chk c a h = chk' c a h"
  have "check_struct_fields X chk c afields = check_struct_fields X chk' c afields" for c
    by (rule check_struct_fields_cong) (rule h)
  then show ?thesis by (simp only: check_expr_struct_def)
qed

lemma check_case_options_cong:
  "(\<And>c a h. a \<in> set aopts \<Longrightarrow> chk c a h = chk' c a h)
   \<Longrightarrow> check_case_options X chk ctx t aopts = check_case_options X chk' ctx t aopts"
  by (induction aopts arbitrary: ctx) (auto intro!: and_then_cong split: option.splits)

lemma check_switch_cases_cong:
  "(\<And>c a h. a \<in> case_value ` set acases \<union> (\<Union>k \<in> set acases. set (case_options k))
      \<Longrightarrow> chk c a h = chk' c a h)
   \<Longrightarrow> check_switch_cases X chk ctx t r acases = check_switch_cases X chk' ctx t r acases"
proof (induction acases arbitrary: ctx r)
  case Nil
  then show ?case by simp
next
  case (Cons acase acases)
  have opts: "check_case_options X chk c t (case_options acase)
      = check_case_options X chk' c t (case_options acase)" for c
    using Cons.prems by (intro check_case_options_cong) auto
  have body: "chk c (case_value acase) h = chk' c (case_value acase) h" for c h
    using Cons.prems by simp
  have tl: "check_switch_cases X chk c t r' acases = check_switch_cases X chk' c t r' acases"
    for c r'
    using Cons.prems by (intro Cons.IH) auto
  show ?case by (simp add: opts body tl)
qed

lemma check_expr_switch_cong [fundef_cong]:
  "(\<And>c a h. a = avalue \<or> a \<in> case_value ` set acases
        \<or> a \<in> (\<Union>k \<in> set acases. set (case_options k))
      \<Longrightarrow> chk c a h = chk' c a h)
   \<Longrightarrow> check_expr_switch X chk ctx loc avalue acases
     = check_expr_switch X chk' ctx loc avalue acases"
proof -
  assume h: "\<And>c a h. a = avalue \<or> a \<in> case_value ` set acases
        \<or> a \<in> (\<Union>k \<in> set acases. set (case_options k))
      \<Longrightarrow> chk c a h = chk' c a h"
  have "check_switch_cases X chk c t r acases = check_switch_cases X chk' c t r acases" for c t r
    by (rule check_switch_cases_cong) (use h in auto)
  moreover have "chk c avalue hint = chk' c avalue hint" for c hint
    by (simp add: h)
  ultimately show ?thesis by (simp only: check_expr_switch_def)
qed

lemma check_expr_unarithm_cong [fundef_cong]:
  "(\<And>c a h. a = aoperand \<Longrightarrow> chk c a h = chk' c a h)
   \<Longrightarrow> check_expr_unarithm X chk ctx loc op aoperand
     = check_expr_unarithm X chk' ctx loc op aoperand"
  unfolding check_expr_unarithm_def by simp

text \<open>
  The dispatcher: one equation per kind of node, in the order of the \<^verbatim>\<open>switch\<close>.
  \<^verbatim>\<open>EXPR_MATCH\<close> and the \<^verbatim>\<open>offset\<close> measurement are \<^verbatim>\<open>assert(0)\<close> in the source.
\<close>

lemma size_member: "x \<in> set xs \<Longrightarrow> size x \<le> size_list size xs"
  by (induction xs) auto

lemma size_b_initializer: "size (b_initializer b) \<le> size b"
  by (cases b) simp

lemma size_arg_value: "size (arg_value a) \<le> size a"
  by (cases a) simp

lemma size_item_value: "size (item_value i) \<le> size i"
  by (cases i) simp

lemma size_f_initializer: "size (f_initializer f) \<le> size f"
  by (cases f) simp

lemma size_case_value: "size (case_value k) \<le> size k"
  by (cases k) simp

lemma size_case_options: "a \<in> set (case_options k) \<Longrightarrow> size a \<le> size k"
  by (cases k) (auto dest: size_member)

function check_expression :: "type_store \<Rightarrow> check_ctx \<Rightarrow> ast_expression \<Rightarrow> htype option \<Rightarrow> checked" where
  "check_expression X ctx (A_access_ident loc i) hint = check_expr_access_ident ctx loc i"
| "check_expression X ctx (A_access_index loc aarray aindex) hint =
     check_expr_access_index X (check_expression X) ctx loc aarray aindex"
| "check_expression X ctx (A_access_field loc astruct fname) hint =
     check_expr_access_field (check_expression X) ctx loc astruct fname"
| "check_expression X ctx (A_assert loc acond amessage) hint =
     check_expr_assert (check_expression X) ctx loc acond amessage"
| "check_expression X ctx (A_assign loc op aobject avalue indirect) hint =
     check_expr_assign X (check_expression X) ctx loc op aobject avalue indirect"
| "check_expression X ctx (A_binarithm loc op alvalue arvalue) hint =
     check_expr_binarithm (check_expression X) ctx loc op alvalue arvalue"
| "check_expression X ctx (A_binding loc first rest) hint =
     check_expr_binding X (check_expression X) ctx loc first rest"
| "check_expression X ctx (A_control loc kind label) hint = check_expr_control ctx loc kind label"
| "check_expression X ctx (A_call loc alvalue aargs) hint =
     check_expr_call X (check_expression X) ctx loc alvalue aargs"
| "check_expression X ctx (A_cast loc kind avalue atype) hint =
     check_expr_cast X (check_expression X) ctx loc kind avalue atype"
| "check_expression X ctx (A_constant loc s k) hint =
     check_expr_constant X (check_expression X) ctx loc s k hint"
| "check_expression X ctx (A_defer loc adeferred) hint =
     check_expr_defer (check_expression X) ctx loc adeferred"
| "check_expression X ctx (A_for loc label label_loc abindings acond aafterthought abody) hint =
     check_expr_for (check_expression X) ctx loc label label_loc abindings acond aafterthought abody"
| "check_expression X ctx (A_if loc acond atrue afalse) hint =
     check_expr_if (check_expression X) ctx loc acond atrue afalse"
| "check_expression X ctx (A_list loc first rest) hint =
     check_expr_list (check_expression X) ctx loc first rest"
| "check_expression X ctx (A_match loc) hint = Inl Assertion_failure"
| "check_expression X ctx (A_measure_len loc avalue) hint =
     check_expr_measure_len (check_expression X) ctx loc avalue"
| "check_expression X ctx (A_measure_size loc atype) hint = check_expr_measure_size X ctx loc atype"
| "check_expression X ctx (A_measure_offset loc) hint = Inl Assertion_failure"
| "check_expression X ctx (A_return loc avalue) hint =
     check_expr_return X (check_expression X) ctx loc avalue"
| "check_expression X ctx (A_slice loc aobject astart aend) hint =
     check_expr_slice X (check_expression X) ctx loc aobject astart aend"
| "check_expression X ctx (A_struct loc autofill type_name afields) hint =
     check_expr_struct X (check_expression X) ctx loc autofill type_name afields"
| "check_expression X ctx (A_switch loc avalue acases) hint =
     check_expr_switch X (check_expression X) ctx loc avalue acases"
| "check_expression X ctx (A_unarithm loc op aoperand) hint =
     check_expr_unarithm X (check_expression X) ctx loc op aoperand"
  by pat_completeness auto

termination
proof (relation "measure (\<lambda>(X, ctx, a, h). size a)", goal_cases)
  case (7 X ctx loc first rest hint c a h)
  then consider "a = b_initializer first" | b where "b \<in> set rest" "a = b_initializer b"
    by auto
  then show ?case
  proof cases
    case 1
    then show ?thesis
      using size_b_initializer [of first] by simp
  next
    case 2
    then show ?thesis
      using size_member [of b rest] size_b_initializer [of b] by simp
  qed
next
  case (8 X ctx loc alvalue aargs hint c a h)
  then consider "a = alvalue" | x where "x \<in> set aargs" "a = arg_value x"
    by auto
  then show ?case
  proof cases
    case 1
    then show ?thesis by simp
  next
    case 2
    then show ?thesis
      using size_member [of x aargs] size_arg_value [of x] by simp
  qed
next
  case (10 X ctx loc s k hint c a h)
  then obtain x where x: "x \<in> set (constant_items k)" "a = item_value x"
    by auto
  then obtain items where k: "k = AC_array items"
    by (cases k) auto
  with x show ?case
    using size_member [of x items] size_item_value [of x] by simp
next
  case (14 X ctx loc first rest hint c a h)
  then show ?case
    using size_member [of a rest] by auto
next
  case (18 X ctx loc autofill type_name afields hint c a h)
  then obtain x where "x \<in> set afields" "a = f_initializer x"
    by auto
  then show ?case
    using size_member [of x afields] size_f_initializer [of x] by simp
next
  case (19 X ctx loc avalue acases hint c a h)
  then consider "a = avalue" | x where "x \<in> set acases" "a = case_value x"
    | x where "x \<in> set acases" "a \<in> set (case_options x)"
    by auto
  then show ?case
  proof cases
    case 1
    then show ?thesis by simp
  next
    case 2
    then show ?thesis
      using size_member [of x acases] size_case_value [of x] by simp
  next
    case 3
    then show ?thesis
      using size_member [of x acases] size_case_options [of a x] by simp
  qed
qed auto


section \<open>Declarations\<close>

record ast_function_decl =
  fd_symbol :: "string option"
  fd_ident :: identifier_t
  fd_prototype :: ast_function_type
  fd_body :: "ast_expression option"
  fd_flags :: "32 word"

record ast_global_decl =
  gd_symbol :: "string option"
  gd_ident :: identifier_t
  gd_type :: ast_type
  gd_init :: "ast_expression option"

record ast_type_decl =
  td_ident :: identifier_t
  td_type :: ast_type

datatype ast_decl_kind =
    AST_DECL_CONST ast_global_decl
  | AST_DECL_FUNC ast_function_decl
  | AST_DECL_GLOBAL ast_global_decl
  | AST_DECL_TYPE ast_type_decl

record ast_decl =
  ad_loc :: location
  ad_exported :: bool
  ad_decl :: ast_decl_kind

datatype decl_payload =
    DECL_FUNC htype expression nat "32 word"
  | DECL_GLOBAL htype expression
  | DECL_TYPE htype

text \<open>
  \<^verbatim>\<open>struct declaration\<close>, obtained from \<^verbatim>\<open>xcalloc\<close>: \<open>exported\<close> is false until
  \<^verbatim>\<open>check_declarations\<close> assigns it.
\<close>

record declaration_t =
  decl_ident :: identifier_t
  decl_symbol :: "string option"
  exported :: bool
  decl :: decl_payload

subsection \<open>The second pass\<close>

text \<open>The loop of \<^verbatim>\<open>check_function\<close> that enters the parameters into the function scope.\<close>

fun check_params ::
  "type_store \<Rightarrow> check_ctx \<Rightarrow> variadism \<Rightarrow> (location \<times> string option \<times> ast_type) list
    \<Rightarrow> error + check_ctx" where
  "check_params X ctx v [] = Inr ctx"
| "check_params X ctx v ((ploc, pname, ptype) # rest) =
     (case pname of
        None \<Rightarrow> Inl (Error ploc ''Function parameters must be named'')
      | Some n \<Rightarrow>
          and_then (lookup_atype X (scopes ctx) ptype) (\<lambda>t.
          and_then (scope_insert ctx O_BIND (Identifier n None) (Identifier n None)
             (if v = VARIADISM_HARE \<and> rest = [] then lookup_slice X t else t) None) (\<lambda>(ctx, obj).
          check_params X ctx v rest)))"

definition has_init_fini_test :: "32 word \<Rightarrow> bool" where
  "has_init_fini_test f = (\<not> (f AND FN_INIT = 0 \<and> f AND FN_FINI = 0 \<and> f AND FN_TEST = 0))"

definition check_function ::
  "type_store \<Rightarrow> check_ctx \<Rightarrow> location \<Rightarrow> ast_function_decl
    \<Rightarrow> error + (check_ctx \<times> declaration_t option)" where
  "check_function X ctx loc afndecl =
     (case fd_body afndecl of
        None \<Rightarrow> Inr (ctx, None)
      | Some abody \<Rightarrow>
          and_then (lookup_atype X (scopes ctx)
             (Ast_type zero_loc TYPE_STORAGE_FUNCTION TYPE_CONST
                (AT_func (fd_prototype afndecl)))) (\<lambda>fntype.
          and_then (func_info fntype) (\<lambda>(fresult, v, params).
          and_then (expect loc (v \<noteq> VARIADISM_C)
             ''C-style variadism is not allowed for function declarations'') (\<lambda>_.
          let (ctx, scope) = scope_push (ctx\<lparr>current_fntype := Some fntype\<rparr>) in
          and_then (check_params X ctx v (proto_params (fd_prototype afndecl))) (\<lambda>ctx.
          and_then (check_expression X ctx abody (Some fresult)) (\<lambda>(ctx, body).
          and_then
            (if terminates body then Inr ()
             else
               and_then (res body) (\<lambda>bt.
               expect (ast_loc abody) (is_assignable X fresult bt)
                 ''Result value is not assignable to function result type'')) (\<lambda>_.
          let d = \<lparr>decl_ident =
                     (case fd_symbol afndecl of
                        Some symbol \<Rightarrow> Identifier symbol None
                      | None \<Rightarrow> mkident ctx (fd_ident afndecl)),
                   decl_symbol = fd_symbol afndecl,
                   exported = False,
                   decl = DECL_FUNC fntype
                     (if \<not> terminates body \<and> Some fresult \<noteq> result body
                      then lower_implicit_cast fresult body else body)
                     (addr scope) (fd_flags afndecl)\<rparr> in
          and_then
            (if has_init_fini_test (fd_flags afndecl) then
               and_then (expect loc (fresult = builtin_type_void)
                  ''%s function must return void'') (\<lambda>_.
               expect loc (\<not> exported d) ''%s function cannot be exported'')
             else Inr ()) (\<lambda>_.
          and_then (scope_pop ctx) (\<lambda>(ctx, popped).
          Inr (ctx\<lparr>current_fntype := None\<rparr>, Some d))))))))))"

definition check_global ::
  "type_store \<Rightarrow> check_ctx \<Rightarrow> ast_global_decl \<Rightarrow> error + (check_ctx \<times> declaration_t option)" where
  "check_global X ctx agdecl =
     (case gd_init agdecl of
        None \<Rightarrow> Inr (ctx, None)
      | Some ainit \<Rightarrow>
          and_then (lookup_atype X (scopes ctx) (gd_type agdecl)) (\<lambda>t.
          and_then (check_expression X ctx ainit (Some t)) (\<lambda>(ctx, initializer).
          and_then (res initializer) (\<lambda>it.
          and_then (expect (ast_loc ainit) (is_assignable X t it)
             ''Constant type is not assignable from initializer type'') (\<lambda>_.
          case eval_expr X (lower_implicit_cast t initializer) of
            None \<Rightarrow>
              Inl (Error (ast_loc ainit) ''Unable to evaluate global initializer at compile time'')
          | Some evaluated \<Rightarrow>
              Inr (ctx, Some \<lparr>decl_ident =
                                (case gd_symbol agdecl of
                                   Some symbol \<Rightarrow> Identifier symbol None
                                 | None \<Rightarrow> mkident ctx (gd_ident agdecl)),
                              decl_symbol = gd_symbol agdecl,
                              exported = False,
                              decl = DECL_GLOBAL t evaluated\<rparr>))))))"

definition check_type ::
  "type_store \<Rightarrow> check_ctx \<Rightarrow> ast_type_decl \<Rightarrow> error + (check_ctx \<times> declaration_t option)" where
  "check_type X ctx atdecl =
     and_then (lookup_atype X (scopes ctx) (td_type atdecl)) (\<lambda>t.
     Inr (ctx, Some \<lparr>decl_ident = mkident ctx (td_ident atdecl), decl_symbol = None,
                     exported = False, decl = DECL_TYPE t\<rparr>))"

fun check_declarations ::
  "type_store \<Rightarrow> check_ctx \<Rightarrow> ast_decl list \<Rightarrow> error + (check_ctx \<times> declaration_t list)" where
  "check_declarations X ctx [] = Inr (ctx, [])"
| "check_declarations X ctx (adecl # adecls) =
     and_then
       (case ad_decl adecl of
          AST_DECL_CONST c \<Rightarrow> Inr (ctx, None)
        | AST_DECL_FUNC f \<Rightarrow> check_function X ctx (ad_loc adecl) f
        | AST_DECL_GLOBAL g \<Rightarrow> check_global X ctx g
        | AST_DECL_TYPE t \<Rightarrow> check_type X ctx t) (\<lambda>(ctx, checked).
     and_then (check_declarations X ctx adecls) (\<lambda>(ctx, more).
     case checked of
       None \<Rightarrow> Inr (ctx, more)
     | Some d \<Rightarrow> Inr (ctx, d\<lparr>exported := ad_exported adecl\<rparr> # more)))"

subsection \<open>The scan pass, for type declarations\<close>

text \<open>
  The \<^verbatim>\<open>for\<close> loop of \<^verbatim>\<open>scan_type\<close> over the values of an enum type. An enum value is a
  64-bit quantity read as signed (\<^verbatim>\<open>ival\<close>) or unsigned (\<^verbatim>\<open>uval\<close>).
\<close>

definition enum_short :: "ast_type_decl \<Rightarrow> string \<Rightarrow> identifier_t" where
  "enum_short d vname =
     Identifier vname (Some (Identifier (name (td_ident d)) (ns (td_ident d))))"

definition enum_qualified :: "check_ctx \<Rightarrow> ast_type_decl \<Rightarrow> string \<Rightarrow> identifier_t" where
  "enum_qualified ctx d vname = Identifier vname (Some (mkident ctx (td_ident d)))"

definition enum_constant :: "type_store \<Rightarrow> htype \<Rightarrow> 64 word \<Rightarrow> expression" where
  "enum_constant X alias v =
     Expression EXPR_CONSTANT (Some alias) False
       (if is_signed X alias then P_const_ival (sint v) else P_const_uval (unat v))"

fun scan_enum_values ::
  "type_store \<Rightarrow> check_ctx \<Rightarrow> ast_type_decl \<Rightarrow> (string \<times> 64 word) list \<Rightarrow> error + check_ctx" where
  "scan_enum_values X ctx d [] = Inr ctx"
| "scan_enum_values X ctx d ((vname, v) # rest) =
     and_then (lookup_atype X (scopes ctx)
        (Ast_type (at_loc (td_type d)) TYPE_STORAGE_ALIAS 0 (AT_alias (td_ident d) False))) (\<lambda>alias.
     and_then (scope_insert_unit ctx O_CONST (enum_short d vname) (enum_qualified ctx d vname)
        alias (Some (enum_constant X alias v))) (\<lambda>(ctx, obj).
     scan_enum_values X ctx d rest))"

definition scan_type :: "type_store \<Rightarrow> check_ctx \<Rightarrow> ast_type_decl \<Rightarrow> error + check_ctx" where
  "scan_type X ctx d =
     and_then (lookup_atype X (scopes ctx) (td_type d)) (\<lambda>t.
     and_then (scope_insert_unit ctx O_TYPE (mkident ctx (td_ident d)) (td_ident d) t None)
       (\<lambda>(ctx, obj).
     if storage t = TYPE_STORAGE_ENUM
     then and_then (enum_values t) (\<lambda>vs. scan_enum_values X ctx d vs)
     else Inr ctx))"

section \<open>A sample type store and sample programs\<close>

text \<open>
  To run the checker on concrete programs the parameters need values. This store
  interns the primitive types, enums, aliases of declared types and function types
  over primitive types; an integer type is assignable to a wider or equal one; a
  constant, or a cast of a constant, evaluates to a constant.
\<close>

definition sample_is_integer :: "htype \<Rightarrow> bool" where
  "sample_is_integer t =
     (storage t \<in> {TYPE_STORAGE_I8, TYPE_STORAGE_I16, TYPE_STORAGE_I32, TYPE_STORAGE_I64,
                    TYPE_STORAGE_INT, TYPE_STORAGE_U8, TYPE_STORAGE_U16, TYPE_STORAGE_U32,
                    TYPE_STORAGE_U64, TYPE_STORAGE_UINT, TYPE_STORAGE_SIZE})"

definition sample_is_signed :: "htype \<Rightarrow> bool" where
  "sample_is_signed t =
     (storage t \<in> {TYPE_STORAGE_I8, TYPE_STORAGE_I16, TYPE_STORAGE_I32, TYPE_STORAGE_I64,
                    TYPE_STORAGE_INT, TYPE_STORAGE_F32, TYPE_STORAGE_F64})"

definition sample_builtin :: "ast_type \<Rightarrow> htype option" where
  "sample_builtin at =
     map_option (\<lambda>t. lookup_with_flags t (at_flags at))
       (builtin_type_for_storage (at_storage at) False)"

definition sample_lookup_atype :: "scope list \<Rightarrow> ast_type \<Rightarrow> error + htype" where
  "sample_lookup_atype ss at =
     (case at_info at of
        AT_none \<Rightarrow>
          (case sample_builtin at of
             Some t \<Rightarrow> Inr t
           | None \<Rightarrow> Inl (Error (at_loc at) ''Unknown type''))
      | AT_enum vs \<Rightarrow>
          Inr (Type TYPE_STORAGE_ENUM (at_flags at) 4
                 (Enum_info (map (\<lambda>(k, n, v). (n, case v of Some i \<Rightarrow> word_of_int i
                                                      | None \<Rightarrow> word_of_nat k))
                               (enumerate 0 vs))))
      | AT_alias i unwrap \<Rightarrow>
          (case scope_lookup ss i of
             Some obj \<Rightarrow>
               if otype obj = O_TYPE
               then Inr (Type TYPE_STORAGE_ALIAS (at_flags at) (tsize (obj_type obj))
                           (Alias_info i (obj_type obj)))
               else Inl (Error (at_loc at) ''Not a type'')
           | None \<Rightarrow> Inl (Error (at_loc at) ''Unknown type alias''))
      | AT_func proto \<Rightarrow>
          (case (sample_builtin (proto_result proto),
                 those (map (\<lambda>(l, n, t). sample_builtin t) (proto_params proto))) of
             (Some r, Some ps) \<Rightarrow>
               Inr (Type TYPE_STORAGE_FUNCTION (at_flags at) 0
                      (Func_info r (proto_variadism proto) ps))
           | _ \<Rightarrow> Inl (Error (at_loc at) ''Unknown type''))
      | _ \<Rightarrow> Inl (Error (at_loc at) ''Unknown type''))"

definition sample_eval :: "expression \<Rightarrow> expression option" where
  "sample_eval e =
     (if etype e = EXPR_CONSTANT then Some e
      else
        (case payload e of
           P_cast k v s \<Rightarrow>
             if etype v = EXPR_CONSTANT
             then Some (Expression EXPR_CONSTANT (result e) False (payload v))
             else None
         | _ \<Rightarrow> None))"

definition sample_store :: type_store where
  "sample_store =
     \<lparr>lookup_atype = sample_lookup_atype,
      lookup_pointer = (\<lambda>t f. Type TYPE_STORAGE_POINTER 0 8 (Pointer_info t f)),
      lookup_slice = (\<lambda>t. Type TYPE_STORAGE_SLICE 0 24 (Array_info SIZE_UNDEFINED t)),
      lookup_array =
        (\<lambda>t n. Type TYPE_STORAGE_ARRAY 0
                 (if n = SIZE_UNDEFINED then SIZE_UNDEFINED else n * tsize t) (Array_info n t)),
      is_assignable =
        (\<lambda>to from. to = from
           \<or> (sample_is_integer to \<and> sample_is_integer from \<and> tsize from \<le> tsize to)),
      is_castable = (\<lambda>to from. True),
      is_integer = sample_is_integer,
      is_signed = sample_is_signed,
      is_numeric = (\<lambda>t. sample_is_integer t \<or> sample_is_signed t),
      eval_expr = sample_eval\<rparr>"

text \<open>A context as \<^verbatim>\<open>check\<close> sets it up: the unit scope alone, no namespace.\<close>

definition unit_scope :: scope where
  "unit_scope = \<lparr>addr = 0, parent = None, stype = EXPR_ACCESS, slabel = None, objects = []\<rparr>"

definition unit_ctx :: check_ctx where
  "unit_ctx =
     \<lparr>ctx_ns = None, scopes = [unit_scope], current_fntype = None, deferring = False,
      static_id = 0, next_scope = 1\<rparr>"

definition pos :: "nat \<Rightarrow> nat \<Rightarrow> location" where
  "pos l c = \<lparr>path = ''main.ha'', lineno = int l, colno = int c\<rparr>"

definition atom :: "type_storage \<Rightarrow> ast_type" where
  "atom s = Ast_type (pos 1 1) s 0 AT_none"

text \<open>\<^verbatim>\<open>for (true) break\<close>\<close>

definition for_break :: ast_expression where
  "for_break =
     A_for (pos 1 1) None (pos 1 1) None
       (A_constant (pos 1 6) TYPE_STORAGE_BOOL (AC_bval True)) None
       (A_control (pos 1 12) EXPR_BREAK None)"

text \<open>\<^verbatim>\<open>if (true) return else return\<close>\<close>

definition if_return :: ast_expression where
  "if_return =
     A_if (pos 1 1) (A_constant (pos 1 5) TYPE_STORAGE_BOOL (AC_bval True))
       (A_return (pos 1 11) None) (Some (A_return (pos 1 23) None))"

text \<open>\<^verbatim>\<open>export @test fn t() void = return;\<close>\<close>

definition test_fn :: ast_decl where
  "test_fn =
     \<lparr>ad_loc = pos 1 1, ad_exported = True,
      ad_decl = AST_DECL_FUNC
        \<lparr>fd_symbol = None, fd_ident = Identifier ''t'' None,
         fd_prototype = Ast_function_type (atom TYPE_STORAGE_VOID) VARIADISM_NONE [],
         fd_body = Some (A_return (pos 1 28) None),
         fd_flags = FN_TEST\<rparr>\<rparr>"

text \<open>
  A function scope under the unit scope: the current function is \<^verbatim>\<open>fn(n: i64) i64\<close>,
  \<^verbatim>\<open>x: i64\<close> is a local, \<^verbatim>\<open>f: fn(n: i64) void\<close> a declared function and \<^verbatim>\<open>a\<close> a
  constant array \<^verbatim>\<open>[3]int\<close>.
\<close>

definition t_i32 :: htype where "t_i32 = Type TYPE_STORAGE_I32 0 4 No_info"
definition t_i64 :: htype where "t_i64 = Type TYPE_STORAGE_I64 0 8 No_info"
definition t_u8 :: htype where "t_u8 = Type TYPE_STORAGE_U8 0 1 No_info"
definition t_int :: htype where "t_int = Type TYPE_STORAGE_INT 0 4 No_info"

definition t_ints :: htype where
  "t_ints = Type TYPE_STORAGE_ARRAY TYPE_CONST 12 (Array_info 3 t_int)"

definition t_fn :: "htype \<Rightarrow> htype" where
  "t_fn r = Type TYPE_STORAGE_FUNCTION TYPE_CONST 0 (Func_info r VARIADISM_NONE [t_i64])"

definition obj_x :: scope_object where
  "obj_x = Scope_object O_BIND (Identifier ''x'' None) (Identifier ''x'' None) t_i64 None"

definition obj_a :: scope_object where
  "obj_a = Scope_object O_BIND (Identifier ''a'' None) (Identifier ''a'' None) t_ints None"

definition obj_f :: scope_object where
  "obj_f = Scope_object O_DECL (Identifier ''f'' None) (Identifier ''f'' None)
             (t_fn builtin_type_void) None"

definition fn_ctx :: check_ctx where
  "fn_ctx =
     \<lparr>ctx_ns = None,
      scopes = [\<lparr>addr = 1, parent = Some 0, stype = EXPR_ACCESS, slabel = None,
                 objects = [obj_x, obj_a]\<rparr>,
                unit_scope\<lparr>objects := [obj_f]\<rparr>],
      current_fntype = Some (t_fn t_i64), deferring = False, static_id = 0, next_scope = 2\<rparr>"

definition lit :: "type_storage \<Rightarrow> int \<Rightarrow> ast_expression" where
  "lit s i = A_constant (pos 2 9) s (AC_ival i)"

definition var :: "string \<Rightarrow> ast_expression" where
  "var n = A_access_ident (pos 2 1) (Identifier n None)"

definition num :: "htype \<Rightarrow> int \<Rightarrow> expression" where
  "num t i = Expression EXPR_CONSTANT (Some t) False (P_const_ival i)"

definition cast_to :: "htype \<Rightarrow> expression \<Rightarrow> expression" where
  "cast_to t e = Expression EXPR_CAST (Some t) False (P_cast C_CAST e None)"

definition ref :: "scope_object \<Rightarrow> expression" where
  "ref obj = Expression EXPR_ACCESS (Some (obj_type obj)) False (P_access_ident obj)"

text \<open>
  \<^verbatim>\<open>{ let y: i64 = 1i32; for (true) break; }\<close> and
  \<^verbatim>\<open>switch (x) { 1 => return 1i32, 2, 3 => 7i32, 4 => 8i32 }\<close>.
\<close>

definition block :: ast_expression where
  "block =
     A_list (pos 2 1)
       (A_binding (pos 2 3)
          (Ast_binding ''y'' (Some (atom TYPE_STORAGE_I64)) 0 (lit TYPE_STORAGE_I32 1) False) [])
       [for_break]"




section \<open>What a check leaves behind\<close>

text \<open>
  The scope chain as \<^verbatim>\<open>ctx->scope\<close> shows it: for each scope, from the current one to the
  root, its address, its parent pointer, its kind and its label.
\<close>

definition frame :: "scope \<Rightarrow> nat \<times> nat option \<times> expr_type \<times> string option" where
  "frame s = (addr s, parent s, stype s, slabel s)"

definition frames :: "check_ctx \<Rightarrow> (nat \<times> nat option \<times> expr_type \<times> string option) list" where
  "frames ctx = map frame (scopes ctx)"

text \<open>A node that a later pass can type: it has a result type unless it terminates.\<close>

definition typed :: "expression \<Rightarrow> bool" where
  "typed e = (if terminates e then True else result e \<noteq> None)"

text \<open>Every value kept in a scope object (the value of an \<^verbatim>\<open>O_CONST\<close>) is such a node.\<close>

definition values_typed :: "scope list \<Rightarrow> bool" where
  "values_typed ss =
     list_all (\<lambda>s. list_all (\<lambda>obj. case obj_value obj of None \<Rightarrow> True | Some v \<Rightarrow> typed v)
                     (objects s)) ss"

text \<open>
  \<open>keeps c c'\<close>: the chain of \<open>c'\<close> is the chain of \<open>c\<close>, and the values in scope are
  still typed if they were. \<open>sound c c' e\<close>: moreover the node \<open>e\<close> is typed if they were.
\<close>

definition keeps :: "check_ctx \<Rightarrow> check_ctx \<Rightarrow> bool" where
  "keeps c c' = (frames c' = frames c \<and> (values_typed (scopes c) \<longrightarrow> values_typed (scopes c')))"

definition sound :: "check_ctx \<Rightarrow> check_ctx \<Rightarrow> expression \<Rightarrow> bool" where
  "sound c c' e = (keeps c c' \<and> (values_typed (scopes c) \<longrightarrow> typed e))"

section \<open>Running the checker\<close>

lemmas check_defs =
  check_expr_access_ident_def check_expr_access_index_def check_expr_access_field_def
  check_expr_assert_def check_expr_assign_def check_expr_binarithm_def check_expr_binding_def
  check_expr_array_def check_expr_constant_def lower_vaargs_def check_expr_call_def
  check_expr_cast_def check_expr_defer_def check_expr_control_def check_expr_for_def
  check_expr_if_def check_expr_list_def check_expr_measure_len_def check_expr_measure_size_def
  check_expr_return_def check_slice_bound_def check_expr_slice_def check_expr_struct_def
  check_expr_switch_def check_expr_unarithm_def

lemmas run_defs =
  and_then_def expect_def c_assert_def res_def scope_push_def scope_pop_def scope_set_def
  scope_insert_def lower_implicit_cast_def builtin_type_for_storage_def
  builtin_type_void_def builtin_type_bool_def builtin_type_size_def builtin_type_str_def
  builtin_type_const_str_def sample_store_def unit_ctx_def unit_scope_def Let_def

lemmas sample_defs =
  sample_lookup_atype_def sample_builtin_def sample_is_integer_def sample_is_signed_def
  sample_eval_def atom_def lookup_with_flags_def

lemmas program_defs =
  fn_ctx_def obj_x_def obj_a_def obj_f_def t_i32_def t_i64_def t_u8_def t_int_def t_ints_def
  t_fn_def lit_def var_def num_def cast_to_def ref_def pos_def

section \<open>Properties\<close>

subsection \<open>Label resolution\<close>

lemma control_scope_find:
  "control_scope label ss
     = find (\<lambda>s. stype s = EXPR_FOR \<and> (label = None \<or> slabel s = label)) ss"
  by (induction ss) auto

text \<open>
  C6. For a \<^verbatim>\<open>break\<close> or \<^verbatim>\<open>continue\<close>, the search walks the chain of scopes from the
  current one outwards and stops at the first scope that was created for a \<^verbatim>\<open>for\<close>
  expression and, when the control expression is labelled, carries the same label:
  without label this is the innermost \<^verbatim>\<open>for\<close> scope, with label the nearest enclosing
  \<^verbatim>\<open>for\<close> scope of that label. Checking succeeds exactly when such a scope exists, and
  fails with the unknown-label diagnostic otherwise.
\<close>

theorem control_label_resolution:
  "control_scope label (scopes ctx)
     = find (\<lambda>s. stype s = EXPR_FOR \<and> (label = None \<or> slabel s = label)) (scopes ctx)
   \<and> check_expression X ctx (A_control loc kind label) hint
     = (case control_scope label (scopes ctx) of
          None \<Rightarrow> Inl (Error loc ''Unknown label %s'')
        | Some target \<Rightarrow> Inr (ctx, Expression kind None True (P_control label)))"
  by (simp add: control_scope_find check_expr_control_def expect_def and_then_def
      split: option.splits)

subsection \<open>Nodes without a result type\<close>

text \<open>
  C1. \<^verbatim>\<open>check_expr_control\<close> assigns the kind, the flag and the label of a \<^verbatim>\<open>break\<close> or
  \<^verbatim>\<open>continue\<close> node, and never its result: after a successful check of
  \<^verbatim>\<open>for (true) break\<close> the body node has a null result type.
\<close>

theorem break_result_is_null:
  "check_expression sample_store unit_ctx for_break None
     = Inr (unit_ctx\<lparr>next_scope := 2\<rparr>,
            Expression EXPR_FOR (Some builtin_type_void) False
              (P_for None 1 None
                 (Expression EXPR_CONSTANT (Some builtin_type_bool) False (P_const_bval True))
                 None
                 (Expression EXPR_BREAK None True (P_control None))))"
  by (simp add: for_break_def check_defs run_defs)

subsection \<open>An \<^verbatim>\<open>if\<close> whose branches both terminate\<close>

text \<open>
  C2. When both branches of an \<^verbatim>\<open>if\<close> terminate, \<^verbatim>\<open>check_expr_if\<close> sets the result to
  \<open>void\<close> and leaves \<^verbatim>\<open>terminates\<close> as it was allocated, false: the node for
  \<^verbatim>\<open>if (true) return else return\<close> does not terminate although both branches do.
\<close>

theorem if_both_terminate_not_terminating:
  "check_expression sample_store unit_ctx if_return None
     = Inr (unit_ctx,
            Expression EXPR_IF (Some builtin_type_void) False
              (P_if
                 (Expression EXPR_CONSTANT (Some builtin_type_bool) False (P_const_bval True))
                 (Expression EXPR_RETURN (Some builtin_type_void) True (P_return None))
                 (Some (Expression EXPR_RETURN (Some builtin_type_void) True (P_return None)))))"
  by (simp add: if_return_def check_defs run_defs)

subsection \<open>Exported \<^verbatim>\<open>@test\<close> functions\<close>

text \<open>
  C3. \<^verbatim>\<open>check_function\<close> tests \<^verbatim>\<open>decl->exported\<close> of the declaration it has just
  allocated; \<^verbatim>\<open>check_declarations\<close> assigns that field only after \<^verbatim>\<open>check_function\<close>
  has returned. An exported \<^verbatim>\<open>@test\<close> function is therefore accepted, and comes out
  of the check marked as exported.
\<close>

theorem exported_test_function_accepted:
  "check_declarations sample_store unit_ctx [test_fn]
     = Inr (unit_ctx\<lparr>next_scope := 2\<rparr>,
            [\<lparr>decl_ident = Identifier ''t'' None, decl_symbol = None, exported = True,
              decl = DECL_FUNC
                (Type TYPE_STORAGE_FUNCTION TYPE_CONST 0
                   (Func_info builtin_type_void VARIADISM_NONE []))
                (Expression EXPR_RETURN (Some builtin_type_void) True (P_return None))
                1 FN_TEST\<rparr>])"
  by (simp add: test_fn_def check_function_def check_defs run_defs sample_defs func_info_def
      has_init_fini_test_def FN_TEST_def FN_INIT_def FN_FINI_def mkident_def TYPE_CONST_def
      zero_loc_def)

subsection \<open>The synthesised assertion message\<close>

lemma drop_zeroes: "drop n (x # replicate n x) = [x]"
  by (induction n) auto

lemma snprintf_short:
  "s \<noteq> []
   \<Longrightarrow> snprintf (replicate (length s + 1) (CHR 0x00)) (length s) s
     = butlast s @ [CHR 0x00, CHR 0x00]"
  by (cases s rule: rev_cases) (simp_all add: snprintf_def drop_zeroes)

lemma assert_format_not_empty: "assert_format loc \<noteq> []"
  by (simp add: assert_format_def)

lemma assert_message_bytes:
  "assert_message loc
     = Expression EXPR_CONSTANT (Some builtin_type_const_str) False
         (P_const_string (butlast (assert_format loc) @ [CHR 0x00, CHR 0x00])
            (length (assert_format loc)))"
  unfolding assert_message_def Let_def
  by (simp only: snprintf_short [OF assert_format_not_empty])

lemma assert_format_sample: "assert_format (pos 3 7) = ''Assertion failed: main.ha:3:7''"
  by code_simp

text \<open>
  C9. The second \<^verbatim>\<open>snprintf\<close> is given the size \<^verbatim>\<open>n\<close>, not \<^verbatim>\<open>n + 1\<close>, so it stores
  \<^verbatim>\<open>n - 1\<close> characters and a zero byte: the message kept for an \<^verbatim>\<open>assert\<close> without
  message at \<^verbatim>\<open>main.ha:3:7\<close> has the stored length 29 of the full text, but its bytes
  lack the last character of the column.
\<close>

theorem assert_message_truncated:
  "check_expression sample_store unit_ctx (A_assert (pos 3 7) None None) None
     = Inr (unit_ctx,
            Expression EXPR_ASSERT (Some builtin_type_void) True
              (P_assert None
                 (Expression EXPR_CONSTANT (Some builtin_type_const_str) False
                    (P_const_string (''Assertion failed: main.ha:3:'' @ [CHR 0x00, CHR 0x00]) 29))))
   \<and> assert_format (pos 3 7) = ''Assertion failed: main.ha:3:7''"
  by (simp add: check_expr_assert_def and_then_def assert_message_bytes assert_format_sample)

section \<open>Reading a successful check backwards\<close>

lemma and_thenE:
  assumes "and_then m f = Inr r"
  obtains x where "m = Inr x" "f x = Inr r"
  using assms by (cases m) (auto simp: and_then_def)

lemma expect_Inr [simp]: "expect l c msg = Inr u \<longleftrightarrow> c"
  by (simp add: expect_def)

lemma c_assert_Inr [simp]: "c_assert c = Inr u \<longleftrightarrow> c"
  by (simp add: c_assert_def)

lemma res_Inr [simp]: "res e = Inr t \<longleftrightarrow> result e = Some t"
  by (simp add: res_def split: option.splits)


lemma const_flag_or: "f AND TYPE_CONST \<noteq> 0 \<Longrightarrow> (f OR g) AND TYPE_CONST \<noteq> 0"
  by (simp add: bit.conj_disj_distrib2 or_eq_0_iff)

lemma lookup_with_flags_sel [simp]:
  "storage (lookup_with_flags t f) = storage t"
  "tsize (lookup_with_flags t f) = tsize t"
  "info (lookup_with_flags t f) = info t"
  "flags (lookup_with_flags t (a OR flags t)) = a OR flags t"
  by (simp_all add: lookup_with_flags_def ac_simps)

section \<open>Index access\<close>

text \<open>
  C7. When an index access \<^verbatim>\<open>array[index]\<close> checks, both operands were checked without a
  hint, the array operand dereferences to an array or a slice, the index has an integer
  type and is stored cast to \<open>size\<close> (as itself when it already is a \<open>size\<close>), and the
  type of the access is the member type of the array with the flags of the array type
  added to its own: a constant array gives constant elements.
\<close>

theorem index_access_checked:
  assumes "check_expression X ctx (A_access_index loc aarray aindex) hint = Inr (ctx', e)"
  shows "\<exists>ctx1 array index art atype members it r.
      check_expression X ctx aarray None = Inr (ctx1, array)
    \<and> check_expression X ctx1 aindex None = Inr (ctx', index)
    \<and> result array = Some art \<and> type_dereference art = Some atype
    \<and> (storage atype = TYPE_STORAGE_ARRAY \<or> storage atype = TYPE_STORAGE_SLICE)
    \<and> array_members atype = Inr (Some members)
    \<and> result index = Some it \<and> is_integer X (type_dealias it)
    \<and> payload e = P_access_index array
          (if it = builtin_type_size then index
           else Expression EXPR_CAST (Some builtin_type_size) (terminates index)
                  (P_cast C_CAST index None))
    \<and> result e = Some r
    \<and> storage r = storage members \<and> tsize r = tsize members \<and> info r = info members
    \<and> flags r = flags atype OR flags members
    \<and> (flags atype AND TYPE_CONST \<noteq> 0 \<longrightarrow> flags r AND TYPE_CONST \<noteq> 0)"
proof -
  from assms obtain ctx1 array index art atype members it where h:
    "check_expression X ctx aarray None = Inr (ctx1, array)"
    "check_expression X ctx1 aindex None = Inr (ctx', index)"
    "result array = Some art" "type_dereference art = Some atype"
    "storage atype = TYPE_STORAGE_ARRAY \<or> storage atype = TYPE_STORAGE_SLICE"
    "array_members atype = Inr (Some members)"
    "result index = Some it" "is_integer X (type_dealias it)"
    "e = Expression EXPR_ACCESS
           (Some (lookup_with_flags members (flags atype OR flags members))) False
           (P_access_index array (lower_implicit_cast builtin_type_size index))"
    by (auto simp: check_expr_access_index_def elim!: and_thenE split: option.splits)
  show ?thesis
    apply (rule exI [of _ ctx1], rule exI [of _ array], rule exI [of _ index])
    apply (rule exI [of _ art], rule exI [of _ atype], rule exI [of _ members])
    apply (rule exI [of _ it])
    apply (rule exI [of _ "lookup_with_flags members (flags atype OR flags members)"])
    using h by (auto simp: lower_implicit_cast_def const_flag_or)
qed

lemma index_sample:
  "check_expression sample_store fn_ctx
     (A_access_index (pos 2 1) (var ''a'') (A_constant (pos 2 3) TYPE_STORAGE_U8 (AC_uval 1)))
     None
   = Inr (fn_ctx, Expression EXPR_ACCESS (Some (Type TYPE_STORAGE_INT TYPE_CONST 4 No_info)) False
        (P_access_index (ref obj_a)
           (cast_to builtin_type_size
              (Expression EXPR_CONSTANT (Some t_u8) False (P_const_uval 1)))))"
  by (simp add: check_defs run_defs sample_defs program_defs type_dereference_def
      array_members_def SIZE_UNDEFINED_def)

theorem index_access_checked_witness:
  "\<exists>e art atype members r.
      check_expression sample_store fn_ctx
        (A_access_index (pos 2 1) (var ''a'') (A_constant (pos 2 3) TYPE_STORAGE_U8 (AC_uval 1)))
        None = Inr (fn_ctx, e)
    \<and> check_expression sample_store fn_ctx (var ''a'') None = Inr (fn_ctx, ref obj_a)
    \<and> result (ref obj_a) = Some art \<and> type_dereference art = Some atype
    \<and> storage atype = TYPE_STORAGE_ARRAY \<and> flags atype AND TYPE_CONST \<noteq> 0
    \<and> array_members atype = Inr (Some members)
    \<and> payload e = P_access_index (ref obj_a)
          (cast_to builtin_type_size
             (Expression EXPR_CONSTANT (Some t_u8) False (P_const_uval 1)))
    \<and> result e = Some r \<and> storage r = storage members
    \<and> flags r = flags atype OR flags members \<and> flags r AND TYPE_CONST \<noteq> 0"
proof -
  have a: "check_expression sample_store fn_ctx (var ''a'') None = Inr (fn_ctx, ref obj_a)"
    by (simp add: check_defs run_defs sample_defs program_defs)
  have k: "check_expression sample_store fn_ctx
             (A_constant (pos 2 3) TYPE_STORAGE_U8 (AC_uval 1)) None
           = Inr (fn_ctx, Expression EXPR_CONSTANT (Some t_u8) False (P_const_uval 1))"
    by (simp add: check_defs run_defs sample_defs program_defs)
  from index_access_checked [OF index_sample] obtain ctx1 array index art atype members it r
    where h:
      "check_expression sample_store fn_ctx (var ''a'') None = Inr (ctx1, array)"
      "check_expression sample_store ctx1 (A_constant (pos 2 3) TYPE_STORAGE_U8 (AC_uval 1)) None
         = Inr (fn_ctx, index)"
      "result array = Some art" "type_dereference art = Some atype"
      "array_members atype = Inr (Some members)"
      "result (Expression EXPR_ACCESS (Some (Type TYPE_STORAGE_INT TYPE_CONST 4 No_info)) False
        (P_access_index (ref obj_a)
           (cast_to builtin_type_size
              (Expression EXPR_CONSTANT (Some t_u8) False (P_const_uval 1))))) = Some r"
      "storage r = storage members" "flags r = flags atype OR flags members"
      "flags atype AND TYPE_CONST \<noteq> 0 \<longrightarrow> flags r AND TYPE_CONST \<noteq> 0"
    by blast
  from h(1) a have arr: "array = ref obj_a" "ctx1 = fn_ctx" by simp_all
  with h(3,4) have at: "atype = t_ints"
    by (auto simp: ref_def obj_a_def type_dereference_def t_ints_def)
  then have c: "flags atype AND TYPE_CONST \<noteq> 0" "storage atype = TYPE_STORAGE_ARRAY"
    by (simp_all add: t_ints_def TYPE_CONST_def)
  show ?thesis
    using index_sample a h(3-9) arr c by auto
qed

section \<open>Implicit casts\<close>

















section \<open>The scope chain and the typing of nodes across a check\<close>

lemma keeps_refl [simp]: "keeps c c"
  by (simp add: keeps_def)

lemma keeps_trans: "keeps a b \<Longrightarrow> keeps b c \<Longrightarrow> keeps a c"
  by (simp add: keeps_def)

lemma sound_keeps: "sound c c' e \<Longrightarrow> keeps c c'"
  by (simp add: sound_def)

lemma soundI: "keeps c c' \<Longrightarrow> terminates e \<or> result e \<noteq> None \<Longrightarrow> sound c c' e"
  by (auto simp: sound_def typed_def)

lemma sound_typed: "sound c c' e \<Longrightarrow> values_typed (scopes c) \<Longrightarrow> typed e"
  by (simp add: sound_def)


lemma typed_cast [simp]: "typed (lower_implicit_cast t e)"
  by (auto simp: lower_implicit_cast_def typed_def dest: sym)

lemma keeps_deferring [simp]: "keeps c (c'\<lparr>deferring := b\<rparr>) = keeps c c'"
  "keeps (c\<lparr>deferring := b\<rparr>) c' = keeps c c'"
  by (simp_all add: keeps_def frames_def)

lemma keeps_static_id [simp]: "keeps c (c'\<lparr>static_id := n\<rparr>) = keeps c c'"
  by (simp add: keeps_def frames_def)

lemma keeps_insert:
  "scope_insert c ot i n t None = Inr (c', obj) \<Longrightarrow> keeps c c'"
  by (auto simp: scope_insert_def keeps_def frames_def frame_def values_typed_def
      split: list.splits)

lemma keeps_push_pop:
  assumes "keeps (scope_set k l (fst (scope_push c))) c2" and "scope_pop c2 = Inr (c3, p)"
  shows "keeps c c3"
  using assms
  by (auto simp: keeps_def frames_def frame_def values_typed_def scope_set_def scope_push_def
      scope_pop_def Let_def split: list.splits)

lemma lookup_typed:
  "values_typed ss \<Longrightarrow> scope_lookup ss i = Some obj \<Longrightarrow> obj_value obj = Some v \<Longrightarrow> typed v"
proof (induction ss)
  case Nil
  then show ?case by simp
next
  case (Cons s parents)
  show ?case
  proof (cases "find (\<lambda>obj. ident obj = i \<or> oname obj = i) (objects s)")
    case None
    with Cons show ?thesis by (simp add: values_typed_def)
  next
    case (Some found)
    with Cons.prems have "obj \<in> set (objects s)"
      by (auto simp: find_Some_iff)
    with Cons.prems show ?thesis
      by (auto simp: values_typed_def list_all_iff)
  qed
qed

lemma access_ident_sound:
  assumes "check_expr_access_ident ctx loc i = Inr (ctx', e)"
  shows "sound ctx ctx' e"
proof -
  from assms obtain obj where obj: "scope_lookup (scopes ctx) i = Some obj" and c: "ctx' = ctx"
    and e: "obj_value obj = Some e \<or> result e \<noteq> None"
    by (auto simp: check_expr_access_ident_def split: option.splits object_type.splits)
  from e obj have "values_typed (scopes ctx) \<longrightarrow> typed e"
    by (auto simp: typed_def dest: lookup_typed)
  with c show ?thesis by (simp add: sound_def)
qed

lemma access_index_sound:
  assumes "check_expr_access_index X chk ctx loc aarray aindex = Inr (ctx', e)"
    and ih: "\<And>c a h c' v. a = aarray \<or> a = aindex \<Longrightarrow> chk c a h = Inr (c', v) \<Longrightarrow> sound c c' v"
  shows "sound ctx ctx' e"
proof -
  from assms(1) obtain c1 array index where h:
    "chk ctx aarray None = Inr (c1, array)" "chk c1 aindex None = Inr (ctx', index)"
    "result e \<noteq> None"
    by (auto simp: check_expr_access_index_def elim!: and_thenE split: option.splits)
  from ih [OF _ h(1)] ih [OF _ h(2)] have "keeps ctx ctx'"
    by (auto dest!: sound_keeps intro: keeps_trans)
  with h(3) show ?thesis by (simp add: soundI)
qed

lemma access_field_sound:
  assumes "check_expr_access_field chk ctx loc astruct fname = Inr (ctx', e)"
    and ih: "\<And>c a h c' v. a = astruct \<Longrightarrow> chk c a h = Inr (c', v) \<Longrightarrow> sound c c' v"
  shows "sound ctx ctx' e"
proof -
  from assms(1) obtain s where h: "chk ctx astruct None = Inr (ctx', s)" "result e \<noteq> None"
    by (auto simp: check_expr_access_field_def elim!: and_thenE split: option.splits)
  from ih [OF _ h(1)] have "keeps ctx ctx'"
    by (auto dest!: sound_keeps)
  with h(2) show ?thesis by (simp add: soundI)
qed

lemma assert_sound:
  assumes "check_expr_assert chk ctx loc acond amessage = Inr (ctx', e)"
    and ih: "\<And>c a h c' v. a \<in> set_option acond \<union> set_option amessage
      \<Longrightarrow> chk c a h = Inr (c', v) \<Longrightarrow> sound c c' v"
  shows "sound ctx ctx' e"
proof -
  from assms(1) have "keeps ctx ctx' \<and> result e \<noteq> None"
    by (auto simp: check_expr_assert_def elim!: and_thenE split: option.splits
        dest!: ih [rotated] sound_keeps intro: keeps_trans)
  then show ?thesis by (simp add: soundI)
qed

lemma assign_sound:
  assumes "check_expr_assign X chk ctx loc op aobject avalue indirect = Inr (ctx', e)"
    and ih: "\<And>c a h c' v. a = aobject \<or> a = avalue \<Longrightarrow> chk c a h = Inr (c', v) \<Longrightarrow> sound c c' v"
  shows "sound ctx ctx' e"
proof -
  from assms(1) obtain c1 object v where h:
    "chk ctx aobject None = Inr (c1, object)" "chk c1 avalue (result object) = Inr (ctx', v)"
    "result e \<noteq> None"
    by (auto simp: check_expr_assign_def elim!: and_thenE split: if_splits)
  from ih [OF _ h(1)] ih [OF _ h(2)] have "keeps ctx ctx'"
    by (auto dest!: sound_keeps intro: keeps_trans)
  with h(3) show ?thesis by (simp add: soundI)
qed

lemma binarithm_sound:
  assumes "check_expr_binarithm chk ctx loc op alvalue arvalue = Inr (ctx', e)"
    and ih: "\<And>c a h c' v. a = alvalue \<or> a = arvalue \<Longrightarrow> chk c a h = Inr (c', v) \<Longrightarrow> sound c c' v"
  shows "sound ctx ctx' e"
proof -
  from assms(1) obtain c1 lvalue rvalue where h:
    "chk ctx alvalue None = Inr (c1, lvalue)" "chk c1 arvalue None = Inr (ctx', rvalue)"
    "result e \<noteq> None"
    by (auto simp: check_expr_binarithm_def elim!: and_thenE split: if_splits)
  from ih [OF _ h(1)] ih [OF _ h(2)] have "keeps ctx ctx'"
    by (auto dest!: sound_keeps intro: keeps_trans)
  with h(3) show ?thesis by (simp add: soundI)
qed

lemma keeps_static_id_left [simp]: "keeps (c\<lparr>static_id := n\<rparr>) c' = keeps c c'"
  by (simp add: keeps_def frames_def)

lemma bindings_keeps:
  "check_bindings X chk loc ctx bs = Inr (ctx', out)
   \<Longrightarrow> (\<And>c a h c' v. a \<in> b_initializer ` set bs \<Longrightarrow> chk c a h = Inr (c', v) \<Longrightarrow> sound c c' v)
   \<Longrightarrow> keeps ctx ctx'"
proof (induction bs arbitrary: ctx out)
  case Nil
  then show ?case by simp
next
  case (Cons ab rest)
  have ih1: "chk c (b_initializer ab) h = Inr (c', v) \<Longrightarrow> keeps c c'" for c h c' v
    by (rule sound_keeps, rule Cons.prems(2) [of "b_initializer ab"]) simp_all
  have ih2: "keeps c ctx'" if r: "check_bindings X chk loc c rest = Inr (ctx', more)" for c more
    by (rule Cons.IH [OF r]) (rule Cons.prems(2), auto)
  from Cons.prems(1) show ?case
    by (auto elim!: and_thenE split: option.splits if_splits dest!: ih1 ih2 keeps_insert)
      (blast intro: keeps_trans)+
qed

lemma binding_sound:
  assumes "check_expr_binding X chk ctx loc first rest = Inr (ctx', e)"
    and ih: "\<And>c a h c' v. a \<in> b_initializer ` set (first # rest) \<Longrightarrow> chk c a h = Inr (c', v)
      \<Longrightarrow> sound c c' v"
  shows "sound ctx ctx' e"
proof -
  from assms(1) obtain out where h:
    "check_bindings X chk loc ctx (first # rest) = Inr (ctx', out)" "result e \<noteq> None"
    by (auto simp: check_expr_binding_def elim!: and_thenE simp del: check_bindings.simps)
  from bindings_keeps [OF h(1) ih] h(2) show ?thesis
    by (simp add: soundI)
qed

lemma array_items_keeps:
  "check_array_items X chk ctx items member = Inr (ctx', member', out, expandable)
   \<Longrightarrow> (\<And>c a h c' v. a \<in> item_value ` set items \<Longrightarrow> chk c a h = Inr (c', v) \<Longrightarrow> sound c c' v)
   \<Longrightarrow> keeps ctx ctx'"
proof (induction items arbitrary: ctx member out expandable)
  case Nil
  then show ?case by simp
next
  case (Cons item rest)
  have ih1: "chk c (item_value item) h = Inr (c', v) \<Longrightarrow> keeps c c'" for c h c' v
    by (rule sound_keeps, rule Cons.prems(2) [of "item_value item"]) simp_all
  have ih2: "keeps c ctx'"
    if r: "check_array_items X chk c rest m = Inr (ctx', member', more, ex)" for c m more ex
    by (rule Cons.IH [OF r]) (rule Cons.prems(2), auto)
  from Cons.prems(1) show ?case
    by (auto elim!: and_thenE split: option.splits if_splits dest!: ih1 ih2)
      (blast intro: keeps_trans)+
qed

lemma array_sound:
  assumes "check_expr_array X chk ctx loc items hint = Inr (ctx', e)"
    and ih: "\<And>c a h c' v. a \<in> item_value ` set items \<Longrightarrow> chk c a h = Inr (c', v)
      \<Longrightarrow> sound c c' v"
  shows "sound ctx ctx' e"
proof -
  from assms(1) obtain m m' out ex where h:
    "check_array_items X chk ctx items m = Inr (ctx', m', out, ex)" "result e \<noteq> None"
    by (auto simp: check_expr_array_def elim!: and_thenE split: option.splits if_splits)
  from array_items_keeps [OF h(1) ih] h(2) show ?thesis
    by (simp add: soundI)
qed

lemma constant_sound:
  assumes "check_expr_constant X chk ctx loc s k hint = Inr (ctx', e)"
    and ih: "\<And>c a h c' v. a \<in> item_value ` set (constant_items k) \<Longrightarrow> chk c a h = Inr (c', v)
      \<Longrightarrow> sound c c' v"
  shows "sound ctx ctx' e"
proof (cases "s = TYPE_STORAGE_ARRAY")
  case True
  with assms(1) obtain items where k: "k = AC_array items"
    and r: "check_expr_array X chk ctx loc items hint = Inr (ctx', e)"
    by (auto simp: check_expr_constant_def split: ast_constant.splits)
  from r show ?thesis
    by (rule array_sound) (rule ih, simp_all add: k)
next
  case False
  with assms(1) have "ctx' = ctx \<and> result e \<noteq> None"
    by (auto simp: check_expr_constant_def builtin_type_for_storage_def Let_def
        split: ast_constant.splits if_splits)
  then show ?thesis by (simp add: soundI)
qed

lemma vaargs_sound:
  assumes "lower_vaargs X chk ctx aarg rest member = Inr (ctx', e)"
    and ih: "\<And>c a h c' v. a \<in> arg_value ` set (aarg # rest) \<Longrightarrow> chk c a h = Inr (c', v)
      \<Longrightarrow> sound c c' v"
  shows "sound ctx ctx' e"
proof -
  from assms(1) obtain h where r:
    "check_expr_constant X chk ctx (ast_loc (arg_value aarg)) TYPE_STORAGE_ARRAY
       (AC_array (map (\<lambda>a. Ast_array_constant (arg_value a) False) (aarg # rest))) h
     = Inr (ctx', e)"
    by (auto simp: lower_vaargs_def elim!: and_thenE split: option.splits)
  from r show ?thesis
    by (rule constant_sound) (rule ih, auto)
qed

lemma call_args_keeps:
  "check_call_args X chk v ctx params aargs = Inr (ctx', args, al, pl)
   \<Longrightarrow> (\<And>c a h c' v. a \<in> arg_value ` set aargs \<Longrightarrow> chk c a h = Inr (c', v) \<Longrightarrow> sound c c' v)
   \<Longrightarrow> keeps ctx ctx'"
proof (induction aargs arbitrary: ctx params args)
  case Nil
  then show ?case by (cases params) auto
next
  case (Cons aarg rest)
  show ?case
  proof (cases params)
    case Nil
    with Cons.prems(1) show ?thesis by auto
  next
    case (Cons param ps)
    have ih1: "keeps c c'" if "chk c (arg_value aarg) h = Inr (c', a)" for c h c' a
      by (rule sound_keeps, rule Cons.prems(2) [OF _ that]) simp
    have ih2: "keeps c ctx'"
      if r: "check_call_args X chk v c ps rest = Inr (ctx', more, al, pl)" for c more
      by (rule Cons.IH [OF r]) (rule Cons.prems(2), auto)
    have ih3: "keeps c c'" if r: "lower_vaargs X chk c aarg rest m = Inr (c', a)" for c m c' a
      by (rule sound_keeps, rule vaargs_sound [OF r]) (rule Cons.prems(2), auto)
    from Cons.prems(1) Cons show ?thesis
      by (auto elim!: and_thenE split: if_splits dest!: ih1 ih2 ih3)
        (blast intro: keeps_trans)+
  qed
qed

lemma call_sound:
  assumes "check_expr_call X chk ctx loc alvalue aargs = Inr (ctx', e)"
    and ih: "\<And>c a h c' v. a = alvalue \<or> a \<in> arg_value ` set aargs \<Longrightarrow> chk c a h = Inr (c', v)
      \<Longrightarrow> sound c c' v"
  shows "sound ctx ctx' e"
proof -
  from assms(1) obtain c1 lvalue v params args al pl where h:
    "chk ctx alvalue None = Inr (c1, lvalue)"
    "check_call_args X chk v c1 params aargs = Inr (ctx', args, al, pl)"
    "result e \<noteq> None"
    by (auto simp: check_expr_call_def elim!: and_thenE split: option.splits)
  have "keeps ctx c1"
    by (rule sound_keeps, rule ih [OF _ h(1)]) simp
  moreover have "keeps c1 ctx'"
    by (rule call_args_keeps [OF h(2)]) (rule ih, auto)
  ultimately have "keeps ctx ctx'" by (rule keeps_trans)
  with h(3) show ?thesis by (simp add: soundI)
qed

lemma cast_sound:
  assumes "check_expr_cast X chk ctx loc kind avalue atype = Inr (ctx', e)"
    and ih: "\<And>c a h c' v. a = avalue \<Longrightarrow> chk c a h = Inr (c', v) \<Longrightarrow> sound c c' v"
  shows "sound ctx ctx' e"
proof -
  from assms(1) have "keeps ctx ctx' \<and> result e \<noteq> None"
    by (auto simp: check_expr_cast_def elim!: and_thenE split: if_splits
        dest!: ih [rotated] sound_keeps)
  then show ?thesis by (simp add: soundI)
qed

lemma defer_sound:
  assumes "check_expr_defer chk ctx loc adeferred = Inr (ctx', e)"
    and ih: "\<And>c a h c' v. a = adeferred \<Longrightarrow> chk c a h = Inr (c', v) \<Longrightarrow> sound c c' v"
  shows "sound ctx ctx' e"
proof -
  from assms(1) have "keeps ctx ctx' \<and> result e \<noteq> None"
    by (auto simp: check_expr_defer_def elim!: and_thenE dest!: ih [rotated] sound_keeps)
  then show ?thesis by (simp add: soundI)
qed

lemma control_sound:
  assumes "check_expr_control ctx loc kind label = Inr (ctx', e)"
  shows "sound ctx ctx' e"
proof -
  from assms(1) have "keeps ctx ctx' \<and> terminates e"
    by (auto simp: check_expr_control_def elim!: and_thenE)
  then show ?thesis by (simp add: soundI)
qed

lemma for_sound:
  assumes "check_expr_for chk ctx loc label label_loc abindings acond aafterthought abody
      = Inr (ctx', e)"
    and ih: "\<And>c a h c' v.
      a \<in> set_option abindings \<union> {acond} \<union> set_option aafterthought \<union> {abody}
      \<Longrightarrow> chk c a h = Inr (c', v) \<Longrightarrow> sound c c' v"
  shows "sound ctx ctx' e"
proof -
  have k: "keeps c c'" if "chk c a h = Inr (c', v)"
    "a \<in> set_option abindings \<union> {acond} \<union> set_option aafterthought \<union> {abody}"
    for c a h c' v
    using that by (auto dest: ih [rotated] sound_keeps)
  from assms(1) obtain c2 p where h:
    "keeps (scope_set EXPR_FOR label (fst (scope_push ctx))) c2"
    "scope_pop c2 = Inr (ctx', p)" "result e \<noteq> None"
    apply (simp add: check_expr_for_def Let_def split_beta)
    apply (elim and_thenE)
    apply (auto split: option.splits elim!: and_thenE dest!: k)
    apply (blast intro: keeps_trans)+
    done
  from keeps_push_pop [OF h(1,2)] h(3) show ?thesis
    by (simp add: soundI)
qed

lemma if_sound:
  assumes "check_expr_if chk ctx loc acond atrue afalse = Inr (ctx', e)"
    and ih: "\<And>c a h c' v. a \<in> {acond, atrue} \<union> set_option afalse \<Longrightarrow> chk c a h = Inr (c', v)
      \<Longrightarrow> sound c c' v"
  shows "sound ctx ctx' e"
proof -
  from assms(1) obtain c1 cond c2 tb where h:
    "chk ctx acond (Some builtin_type_bool) = Inr (c1, cond)"
    "chk c1 atrue None = Inr (c2, tb)"
    "(afalse = None \<and> ctx' = c2 \<and> result e \<noteq> None)
     \<or> (\<exists>af fb. afalse = Some af \<and> chk c2 af None = Inr (ctx', fb)
          \<and> (typed tb \<longrightarrow> typed fb \<longrightarrow> typed e))"
    by (auto simp: check_expr_if_def typed_def elim!: and_thenE split: option.splits if_splits)
  from ih [OF _ h(1)] have k1: "keeps ctx c1" by (simp add: sound_keeps)
  from ih [OF _ h(2)] have s2: "sound c1 c2 tb" by simp
  from h(3) show ?thesis
  proof (elim disjE conjE exE)
    assume "ctx' = c2" "result e \<noteq> None"
    with k1 s2 show ?thesis
      by (auto intro!: soundI intro: keeps_trans dest: sound_keeps)
  next
    fix af fb
    assume f: "afalse = Some af" "chk c2 af None = Inr (ctx', fb)"
      and t: "typed tb \<longrightarrow> typed fb \<longrightarrow> typed e"
    from ih [OF _ f(2)] f(1) have s3: "sound c2 ctx' fb" by simp
    from k1 s2 s3 t show ?thesis
      by (auto simp: sound_def keeps_def)
  qed
qed

lemma values_typed_push [simp]:
  "values_typed (scopes (scope_set k l (fst (scope_push c)))) = values_typed (scopes c)"
  by (simp add: scope_set_def scope_push_def values_typed_def Let_def)

lemma list_items_sound:
  "check_list_items chk ctx as = Inr (ctx', exprs, r, t)
   \<Longrightarrow> (\<And>c a h c' v. a \<in> set as \<Longrightarrow> chk c a h = Inr (c', v) \<Longrightarrow> sound c c' v)
   \<Longrightarrow> as \<noteq> []
   \<Longrightarrow> keeps ctx ctx' \<and> (values_typed (scopes ctx) \<longrightarrow> t \<or> r \<noteq> None)"
proof (induction as arbitrary: ctx exprs)
  case Nil
  then show ?case by simp
next
  case (Cons a rest)
  from Cons.prems(1) obtain c1 lexpr where h: "chk ctx a None = Inr (c1, lexpr)"
    by (auto elim!: and_thenE)
  from Cons.prems(2) [OF _ h] have s1: "sound ctx c1 lexpr" by simp
  show ?case
  proof (cases "rest = []")
    case True
    with Cons.prems(1) h have "ctx' = c1" "r = result lexpr" "t = terminates lexpr"
      by (auto simp: and_then_def)
    with s1 show ?thesis
      by (auto simp: sound_def typed_def split: if_splits)
  next
    case False
    with Cons.prems(1) h obtain more where r:
      "check_list_items chk c1 rest = Inr (ctx', more, r, t)"
      by (auto simp: and_then_def split: sum.splits)
    have "keeps c1 ctx' \<and> (values_typed (scopes c1) \<longrightarrow> t \<or> r \<noteq> None)"
      by (rule Cons.IH [OF r _ False]) (rule Cons.prems(2), auto)
    with s1 show ?thesis
      by (auto simp: sound_def keeps_def)
  qed
qed

lemma list_sound:
  assumes "check_expr_list chk ctx loc first rest = Inr (ctx', e)"
    and ih: "\<And>c a h c' v. a \<in> set (first # rest) \<Longrightarrow> chk c a h = Inr (c', v) \<Longrightarrow> sound c c' v"
  shows "sound ctx ctx' e"
proof -
  from assms(1) obtain c2 exprs r t p where h:
    "check_list_items chk (scope_set EXPR_LIST None (fst (scope_push ctx))) (first # rest)
       = Inr (c2, exprs, r, t)"
    "scope_pop c2 = Inr (ctx', p)" "result e = r" "terminates e = t"
    by (auto simp: check_expr_list_def Let_def split_beta elim!: and_thenE
        simp del: check_list_items.simps)
  from list_items_sound [OF h(1) ih] have k:
    "keeps (scope_set EXPR_LIST None (fst (scope_push ctx))) c2"
    and t: "values_typed (scopes ctx) \<longrightarrow> t \<or> r \<noteq> None"
    by simp_all
  from keeps_push_pop [OF k h(2)] t h(3,4) show ?thesis
    by (auto simp: sound_def typed_def)
qed

lemma measure_len_sound:
  assumes "check_expr_measure_len chk ctx loc avalue = Inr (ctx', e)"
    and ih: "\<And>c a h c' v. a = avalue \<Longrightarrow> chk c a h = Inr (c', v) \<Longrightarrow> sound c c' v"
  shows "sound ctx ctx' e"
proof -
  from assms(1) have "keeps ctx ctx' \<and> result e \<noteq> None"
    by (auto simp: check_expr_measure_len_def elim!: and_thenE dest!: ih [rotated] sound_keeps)
  then show ?thesis by (simp add: soundI)
qed

lemma measure_size_sound:
  assumes "check_expr_measure_size X ctx loc atype = Inr (ctx', e)"
  shows "sound ctx ctx' e"
proof -
  from assms(1) have "keeps ctx ctx' \<and> result e \<noteq> None"
    by (auto simp: check_expr_measure_size_def elim!: and_thenE)
  then show ?thesis by (simp add: soundI)
qed

lemma return_sound:
  assumes "check_expr_return X chk ctx loc avalue = Inr (ctx', e)"
    and ih: "\<And>c a h c' v. a \<in> set_option avalue \<Longrightarrow> chk c a h = Inr (c', v) \<Longrightarrow> sound c c' v"
  shows "sound ctx ctx' e"
proof -
  from assms(1) have "keeps ctx ctx' \<and> result e \<noteq> None"
    by (auto simp: check_expr_return_def elim!: and_thenE split: option.splits
        dest!: ih [rotated] sound_keeps)
  then show ?thesis by (simp add: soundI)
qed

lemma slice_bound_keeps:
  assumes "check_slice_bound X chk ctx abound = Inr (ctx', b)"
    and ih: "\<And>c a h c' v. a \<in> set_option abound \<Longrightarrow> chk c a h = Inr (c', v) \<Longrightarrow> sound c c' v"
  shows "keeps ctx ctx'"
  using assms(1)
  by (auto simp: check_slice_bound_def elim!: and_thenE split: option.splits
      dest!: ih [rotated] sound_keeps)

lemma slice_sound:
  assumes "check_expr_slice X chk ctx loc aobject astart aend = Inr (ctx', e)"
    and ih: "\<And>c a h c' v. a \<in> {aobject} \<union> set_option astart \<union> set_option aend
      \<Longrightarrow> chk c a h = Inr (c', v) \<Longrightarrow> sound c c' v"
  shows "sound ctx ctx' e"
proof -
  from assms(1) obtain c1 object c2 s1 s2 where h:
    "chk ctx aobject None = Inr (c1, object)"
    "check_slice_bound X chk c1 astart = Inr (c2, s1)"
    "check_slice_bound X chk c2 aend = Inr (ctx', s2)"
    "result e \<noteq> None"
    by (auto simp: check_expr_slice_def elim!: and_thenE split: option.splits)
  have "keeps ctx c1"
    by (rule sound_keeps, rule ih [OF _ h(1)]) simp
  moreover have "keeps c1 c2"
    by (rule slice_bound_keeps [OF h(2)]) (rule ih, auto)
  moreover have "keeps c2 ctx'"
    by (rule slice_bound_keeps [OF h(3)]) (rule ih, auto)
  ultimately have "keeps ctx ctx'" by (blast intro: keeps_trans)
  with h(4) show ?thesis by (simp add: soundI)
qed

lemma struct_fields_keeps:
  "check_struct_fields X chk ctx afields = Inr (ctx', vs)
   \<Longrightarrow> (\<And>c a h c' v. a \<in> f_initializer ` set afields \<Longrightarrow> chk c a h = Inr (c', v)
        \<Longrightarrow> sound c c' v)
   \<Longrightarrow> keeps ctx ctx'"
proof (induction afields arbitrary: ctx vs)
  case Nil
  then show ?case by simp
next
  case (Cons af rest)
  have ih1: "keeps c c'" if "chk c (f_initializer af) h = Inr (c', v)" for c h c' v
    by (rule sound_keeps, rule Cons.prems(2) [OF _ that]) simp
  have ih2: "keeps c ctx'" if r: "check_struct_fields X chk c rest = Inr (ctx', more)" for c more
    by (rule Cons.IH [OF r]) (rule Cons.prems(2), auto)
  from Cons.prems(1) show ?case
    by (auto elim!: and_thenE dest!: ih1 ih2) (blast intro: keeps_trans)+
qed

lemma struct_sound:
  assumes "check_expr_struct X chk ctx loc autofill type_name afields = Inr (ctx', e)"
    and ih: "\<And>c a h c' v. a \<in> f_initializer ` set afields \<Longrightarrow> chk c a h = Inr (c', v)
      \<Longrightarrow> sound c c' v"
  shows "sound ctx ctx' e"
proof -
  from assms(1) obtain vs where h:
    "check_struct_fields X chk ctx afields = Inr (ctx', vs)" "result e \<noteq> None"
    by (auto simp: check_expr_struct_def elim!: and_thenE split: if_splits)
  from struct_fields_keeps [OF h(1) ih] h(2) show ?thesis
    by (simp add: soundI)
qed

lemma unarithm_sound:
  assumes "check_expr_unarithm X chk ctx loc op aoperand = Inr (ctx', e)"
    and ih: "\<And>c a h c' v. a = aoperand \<Longrightarrow> chk c a h = Inr (c', v) \<Longrightarrow> sound c c' v"
  shows "sound ctx ctx' e"
proof -
  from assms(1) obtain operand where h: "chk ctx aoperand None = Inr (ctx', operand)"
    "result e \<noteq> None"
    by (auto simp: check_expr_unarithm_def elim!: and_thenE)
  from ih [OF _ h(1)] h(2) show ?thesis
    by (simp add: soundI sound_keeps)
qed

lemma case_options_keeps:
  "check_case_options X chk ctx t aopts = Inr (ctx', opts)
   \<Longrightarrow> (\<And>c a h c' v. a \<in> set aopts \<Longrightarrow> chk c a h = Inr (c', v) \<Longrightarrow> sound c c' v)
   \<Longrightarrow> keeps ctx ctx'"
proof (induction aopts arbitrary: ctx opts t)
  case Nil
  then show ?case by simp
next
  case (Cons aopt rest)
  have ih1: "keeps c c'" if "chk c aopt h = Inr (c', v)" for c h c' v
    by (rule sound_keeps, rule Cons.prems(2) [OF _ that]) simp
  have ih2: "keeps c ctx'"
    if r: "check_case_options X chk c t0 rest = Inr (ctx', more)" for c t0 more
    by (rule Cons.IH [OF r]) (rule Cons.prems(2), auto)
  from Cons.prems(1) show ?case
    by (auto elim!: and_thenE split: option.splits dest!: ih1 ih2) (blast intro: keeps_trans)+
qed

lemma switch_cases_keeps:
  "check_switch_cases X chk ctx t r acases = Inr (ctx', r', cases)
   \<Longrightarrow> (\<And>c a h c' v.
         a \<in> case_value ` set acases \<union> (\<Union>k \<in> set acases. set (case_options k))
         \<Longrightarrow> chk c a h = Inr (c', v) \<Longrightarrow> sound c c' v)
   \<Longrightarrow> keeps ctx ctx'"
proof (induction acases arbitrary: ctx r cases)
  case Nil
  then show ?case by simp
next
  case (Cons acase rest)
  have ih1: "keeps c c'" if "chk c (case_value acase) h = Inr (c', v)" for c h c' v
    by (rule sound_keeps, rule Cons.prems(2) [OF _ that]) simp
  have ih2: "keeps c ctx'"
    if r: "check_switch_cases X chk c t r0 rest = Inr (ctx', r', more)" for c r0 more
    by (rule Cons.IH [OF r]) (rule Cons.prems(2), auto)
  have ih3: "keeps c c'"
    if r: "check_case_options X chk c t (case_options acase) = Inr (c', opts)" for c c' opts
    by (rule case_options_keeps [OF r]) (rule Cons.prems(2), auto)
  from Cons.prems(1) show ?case
    by (auto elim!: and_thenE split: if_splits dest!: ih1 ih2 ih3) (blast intro: keeps_trans)+
qed

lemma switch_sound:
  assumes "check_expr_switch X chk ctx loc avalue acases = Inr (ctx', e)"
    and ih: "\<And>c a h c' v. a = avalue \<or> a \<in> case_value ` set acases
        \<or> a \<in> (\<Union>k \<in> set acases. set (case_options k))
      \<Longrightarrow> chk c a h = Inr (c', v) \<Longrightarrow> sound c c' v"
  shows "sound ctx ctx' e"
proof -
  from assms(1) obtain c1 v r cases where h:
    "chk ctx avalue None = Inr (c1, v)"
    "check_switch_cases X chk c1 (result v) None acases = Inr (ctx', r, cases)"
    "terminates e \<or> result e \<noteq> None"
    by (auto simp: check_expr_switch_def elim!: and_thenE split: if_splits)
  have "keeps ctx c1"
    by (rule sound_keeps, rule ih [OF _ h(1)]) simp
  moreover have "keeps c1 ctx'"
    by (rule switch_cases_keeps [OF h(2)]) (rule ih, auto)
  ultimately have "keeps ctx ctx'" by (rule keeps_trans)
  with h(3) show ?thesis by (simp add: soundI)
qed

text \<open>The invariant of \<open>check_expression\<close>, by the induction that its recursion gives.\<close>

lemma check_expression_sound:
  "check_expression X ctx a hint = Inr (ctx', e) \<Longrightarrow> sound ctx ctx' e"
proof (induction X ctx a hint arbitrary: ctx' e rule: check_expression.induct)
  case 1
  then show ?case
    by (simp only: check_expression.simps) (erule access_ident_sound)
next
  case 2
  from "2.prems" show ?case
    by (simp only: check_expression.simps) (erule access_index_sound, erule "2.IH", assumption)
next
  case 3
  from "3.prems" show ?case
    by (simp only: check_expression.simps) (erule access_field_sound, erule "3.IH", assumption)
next
  case 4
  from "4.prems" show ?case
    by (simp only: check_expression.simps) (erule assert_sound, erule "4.IH", assumption)
next
  case 5
  from "5.prems" show ?case
    by (simp only: check_expression.simps) (erule assign_sound, erule "5.IH", assumption)
next
  case 6
  from "6.prems" show ?case
    by (simp only: check_expression.simps) (erule binarithm_sound, erule "6.IH", assumption)
next
  case 7
  from "7.prems" show ?case
    by (simp only: check_expression.simps) (erule binding_sound, erule "7.IH", assumption)
next
  case 8
  then show ?case
    by (simp only: check_expression.simps) (erule control_sound)
next
  case 9
  from "9.prems" show ?case
    by (simp only: check_expression.simps) (erule call_sound, erule "9.IH", assumption)
next
  case 10
  from "10.prems" show ?case
    by (simp only: check_expression.simps) (erule cast_sound, erule "10.IH", assumption)
next
  case 11
  from "11.prems" show ?case
    by (simp only: check_expression.simps) (erule constant_sound, erule "11.IH", assumption)
next
  case 12
  from "12.prems" show ?case
    by (simp only: check_expression.simps) (erule defer_sound, erule "12.IH", assumption)
next
  case 13
  from "13.prems" show ?case
    by (simp only: check_expression.simps) (erule for_sound, erule "13.IH", assumption)
next
  case 14
  from "14.prems" show ?case
    by (simp only: check_expression.simps) (erule if_sound, erule "14.IH", assumption)
next
  case 15
  from "15.prems" show ?case
    by (simp only: check_expression.simps) (erule list_sound, erule "15.IH", assumption)
next
  case 16
  then show ?case by simp
next
  case 17
  from "17.prems" show ?case
    by (simp only: check_expression.simps) (erule measure_len_sound, erule "17.IH", assumption)
next
  case 18
  then show ?case
    by (simp only: check_expression.simps) (erule measure_size_sound)
next
  case 19
  then show ?case by simp
next
  case 20
  from "20.prems" show ?case
    by (simp only: check_expression.simps) (erule return_sound, erule "20.IH", assumption)
next
  case 21
  from "21.prems" show ?case
    by (simp only: check_expression.simps) (erule slice_sound, erule "21.IH", assumption)
next
  case 22
  from "22.prems" show ?case
    by (simp only: check_expression.simps) (erule struct_sound, erule "22.IH", assumption)
next
  case 23
  from "23.prems" show ?case
    by (simp only: check_expression.simps) (erule switch_sound, erule "23.IH", assumption)
next
  case 24
  from "24.prems" show ?case
    by (simp only: check_expression.simps) (erule unarithm_sound, erule "24.IH", assumption)
qed

section \<open>The scope chain after a check\<close>

lemma block_sample:
  "check_expression sample_store fn_ctx block None
   = Inr (fn_ctx\<lparr>next_scope := 4\<rparr>,
        Expression EXPR_LIST (Some builtin_type_void) False
          (P_list
             [Expression EXPR_BINDING (Some builtin_type_void) False
                (P_binding
                   [(Scope_object O_BIND (Identifier ''y'' None) (Identifier ''y'' None) t_i64 None,
                     cast_to t_i64 (num t_i32 1))]),
              Expression EXPR_FOR (Some builtin_type_void) False
                (P_for None 3 None
                   (Expression EXPR_CONSTANT (Some builtin_type_bool) False (P_const_bval True))
                   None (Expression EXPR_BREAK None True (P_control None)))]
             2))"
  by (simp add: block_def for_break_def check_defs run_defs sample_defs program_defs
      SIZE_UNDEFINED_def)

text \<open>
  C10. A successful check of any expression returns a context whose scope chain is the
  chain on entry: the same scopes from the current one to the root, by address, parent,
  kind and label, so in particular the same current scope. A scope is only ever pushed
  as a child of the current scope, on top of the chain, and popped from the top.
\<close>

theorem scope_chain_restored:
  "(check_expression X ctx a hint = Inr (ctx', e)
      \<longrightarrow> frames ctx' = frames ctx \<and> map addr (scopes ctx') = map addr (scopes ctx))
   \<and> scopes (fst (scope_push ctx)) = snd (scope_push ctx) # scopes ctx
   \<and> parent (snd (scope_push ctx)) = (case scopes ctx of [] \<Rightarrow> None | s # _ \<Rightarrow> Some (addr s))
   \<and> (scope_pop (fst (scope_push ctx)) = Inr (c, s) \<longrightarrow> scopes c = scopes ctx)"
proof (intro conjI impI)
  assume "check_expression X ctx a hint = Inr (ctx', e)"
  then have "keeps ctx ctx'"
    by (rule check_expression_sound [THEN sound_keeps])
  then show f: "frames ctx' = frames ctx"
    by (simp add: keeps_def)
  have "map addr (scopes c) = map fst (frames c)" for c
    by (simp add: frames_def frame_def)
  with f show "map addr (scopes ctx') = map addr (scopes ctx)"
    by simp
qed (auto simp: scope_push_def scope_pop_def Let_def)

theorem scope_chain_restored_witness:
  "check_expression sample_store fn_ctx block None \<noteq> Inl Assertion_failure
   \<and> (\<exists>ctx' e ys. check_expression sample_store fn_ctx block None = Inr (ctx', e)
        \<and> payload e = P_list ys 2 \<and> next_scope ctx' = 4
        \<and> frames ctx' = frames fn_ctx
        \<and> frames fn_ctx = [(1, Some 0, EXPR_ACCESS, None), (0, None, EXPR_ACCESS, None)])"
proof -
  from scope_chain_restored [of sample_store fn_ctx block None, THEN conjunct1, rule_format,
      OF block_sample]
  have "frames (fn_ctx\<lparr>next_scope := 4\<rparr>) = frames fn_ctx" by simp
  moreover have "frames fn_ctx = [(1, Some 0, EXPR_ACCESS, None), (0, None, EXPR_ACCESS, None)]"
    by (simp add: frames_def frame_def fn_ctx_def unit_scope_def)
  ultimately show ?thesis
    by (simp add: block_sample)
qed

section \<open>Switch expressions\<close>







section \<open>Enum values in the unit scope\<close>

lemma insert_unit_effect:
  assumes "scope_insert_unit ctx ot i n t v = Inr (ctx', obj)"
  shows "obj = Scope_object ot i n t v" and "ctx_ns ctx' = ctx_ns ctx"
    and "\<exists>inner u. scopes ctx = inner @ [u]
           \<and> scopes ctx' = inner @ [u\<lparr>objects := objects u @ [obj]\<rparr>]"
proof -
  show o: "obj = Scope_object ot i n t v"
    using assms by (cases "rev (scopes ctx)") (simp_all add: scope_insert_unit_def)
  show "ctx_ns ctx' = ctx_ns ctx"
    using assms by (cases "rev (scopes ctx)") (auto simp: scope_insert_unit_def)
  show "\<exists>inner u. scopes ctx = inner @ [u]
           \<and> scopes ctx' = inner @ [u\<lparr>objects := objects u @ [obj]\<rparr>]"
  proof (cases "rev (scopes ctx)")
    case Nil
    with assms show ?thesis by (simp add: scope_insert_unit_def)
  next
    case (Cons u rinner)
    then have "scopes ctx = rev rinner @ [u]"
      by (simp add: rev_eq_Cons_iff)
    moreover from Cons assms
    have "scopes ctx' = rev rinner @ [u\<lparr>objects := objects u @ [obj]\<rparr>]"
      by (auto simp: scope_insert_unit_def)
    ultimately show ?thesis by blast
  qed
qed













text \<open>The scan keeps the values in scope typed: an enum constant has its alias type.\<close>

lemma insert_unit_values_typed:
  assumes "scope_insert_unit ctx ot i n t v = Inr (ctx', obj)" and "values_typed (scopes ctx)"
    and "case v of None \<Rightarrow> True | Some e \<Rightarrow> typed e"
  shows "values_typed (scopes ctx')"
proof -
  note eff = insert_unit_effect [OF assms(1)]
  from eff(3) obtain inner u where s:
    "scopes ctx = inner @ [u]" "scopes ctx' = inner @ [u\<lparr>objects := objects u @ [obj]\<rparr>]"
    by blast
  with assms(2,3) eff(1) show ?thesis
    by (simp add: values_typed_def)
qed

lemma scan_enum_values_typed:
  "scan_enum_values X ctx d vs = Inr ctx' \<Longrightarrow> values_typed (scopes ctx)
   \<Longrightarrow> values_typed (scopes ctx')"
proof (induction vs arbitrary: ctx)
  case Nil
  then show ?case by simp
next
  case (Cons p rest)
  obtain n v where p: "p = (n, v)" by (cases p)
  from Cons.prems(1) p obtain al c1 obj where h:
    "scope_insert_unit ctx O_CONST (enum_short d n) (enum_qualified ctx d n) al
       (Some (enum_constant X al v)) = Inr (c1, obj)"
    "scan_enum_values X c1 d rest = Inr ctx'"
    by (auto elim!: and_thenE)
  have "values_typed (scopes c1)"
    by (rule insert_unit_values_typed [OF h(1) Cons.prems(2)])
      (simp add: enum_constant_def typed_def)
  with h(2) show ?case by (rule Cons.IH)
qed

lemma scan_type_values_typed:
  assumes "scan_type X ctx d = Inr ctx'" and "values_typed (scopes ctx)"
  shows "values_typed (scopes ctx')"
proof -
  from assms(1) obtain t c1 tobj where h1:
    "scope_insert_unit ctx O_TYPE (mkident ctx (td_ident d)) (td_ident d) t None = Inr (c1, tobj)"
    and h2: "(if storage t = TYPE_STORAGE_ENUM
              then and_then (enum_values t) (\<lambda>vs. scan_enum_values X c1 d vs)
              else Inr c1) = Inr ctx'"
    unfolding scan_type_def by (auto simp: and_then_def split: sum.splits)
  have v1: "values_typed (scopes c1)"
    by (rule insert_unit_values_typed [OF h1 assms(2)]) simp
  show ?thesis
  proof (cases "storage t = TYPE_STORAGE_ENUM")
    case True
    with h2 obtain vs where "scan_enum_values X c1 d vs = Inr ctx'"
      by (auto elim!: and_thenE)
    then show ?thesis using v1 by (rule scan_enum_values_typed)
  next
    case False
    with h2 v1 show ?thesis by simp
  qed
qed

section \<open>The termination flag\<close>

lemma return_terminates:
  "check_expression X ctx (A_return loc avalue) hint = Inr (ctx', e) \<Longrightarrow> terminates e"
  by (auto simp: check_expr_return_def elim!: and_thenE split: option.splits)

lemma control_terminates:
  "check_expression X ctx (A_control loc kind label) hint = Inr (ctx', e) \<Longrightarrow> terminates e"
  by (auto simp: check_expr_control_def elim!: and_thenE)

lemma list_items_last:
  "check_list_items chk ctx as = Inr (ctx', exprs, r, t) \<Longrightarrow> as \<noteq> []
   \<Longrightarrow> exprs \<noteq> [] \<and> r = result (last exprs) \<and> t = terminates (last exprs)"
proof (induction as arbitrary: ctx exprs)
  case Nil
  then show ?case by simp
next
  case (Cons a rest)
  show ?case
  proof (cases "rest = []")
    case True
    with Cons.prems(1) show ?thesis
      by (auto elim!: and_thenE)
  next
    case False
    with Cons.prems(1) obtain c1 lexpr more where h:
      "check_list_items chk c1 rest = Inr (ctx', more, r, t)" "exprs = lexpr # more"
      by (auto elim!: and_thenE)
    from Cons.IH [OF h(1) False] h(2) show ?thesis by simp
  qed
qed

lemma list_terminates:
  assumes "check_expression X ctx (A_list loc first rest) hint = Inr (ctx', e)"
  shows "\<exists>exprs s. payload e = P_list exprs s \<and> exprs \<noteq> []
    \<and> terminates e = terminates (last exprs) \<and> result e = result (last exprs)"
proof -
  from assms obtain c1 c2 exprs r t s where h:
    "check_list_items (check_expression X) c1 (first # rest) = Inr (c2, exprs, r, t)"
    "e = Expression EXPR_LIST r t (P_list exprs s)"
    by (auto simp: check_expr_list_def Let_def split_beta elim!: and_thenE
        simp del: check_list_items.simps)
  from list_items_last [OF h(1)] h(2) show ?thesis by simp
qed

text \<open>An \<^verbatim>\<open>if\<close> with a false branch never has the flag, whatever its branches do.\<close>

lemma if_else_never_terminates:
  "check_expression X ctx (A_if loc acond atrue (Some afalse)) hint = Inr (ctx', e)
   \<Longrightarrow> \<not> terminates e"
  by (auto simp: check_expr_if_def elim!: and_thenE split: if_splits)

section \<open>Functions with \<^verbatim>\<open>@init\<close>, \<^verbatim>\<open>@fini\<close> or \<^verbatim>\<open>@test\<close>\<close>

text \<open>
  The check of the result type is made for a function with a body; a prototype returns
  before it. The check of the export flag reads the field of a fresh declaration.
\<close>

lemma flagged_function_void:
  assumes "check_function X ctx loc f = Inr (ctx', Some d)"
    and "has_init_fini_test (fd_flags f)"
  shows "\<exists>fntype body scope_id v params.
      decl d = DECL_FUNC fntype body scope_id (fd_flags f)
    \<and> func_info fntype = Inr (builtin_type_void, v, params) \<and> \<not> exported d"
  using assms unfolding check_function_def
  by (auto simp: Let_def split_beta elim!: and_thenE split: option.splits if_splits)

lemma prototype_unchecked: "fd_body f = None \<Longrightarrow> check_function X ctx loc f = Inr (ctx, None)"
  by (simp add: check_function_def)

lemma control_result_null:
  "check_expression X ctx (A_control loc kind label) hint = Inr (ctx', e) \<Longrightarrow> result e = None"
  by (auto simp: check_expr_control_def elim!: and_thenE)

end
